theory Spec2Isabelle
  imports Main
begin

section \<open>Host values shared by the popup scripts\<close>

text \<open>
  The extension consists of the popup script (\<^verbatim>\<open>scripts/script.js\<close>, in three
  revisions) and the blocking module (\<^verbatim>\<open>scripts/blocking.js\<close>). Both are thin
  layers over the browser's extension API. The API is the environment: its answers
  (the active tab, the outcome of an injection, whether a storage call failed, what
  the \<^verbatim>\<open>URL\<close> constructor returns) are inputs of the model, and every call the
  scripts make to it is recorded in a trace, in program order.
\<close>

text \<open>A value kept in \<^verbatim>\<open>chrome.storage\<close>: a plain object whose properties are
  booleans (\<^verbatim>\<open>map[urlKey] = true\<close>), or an array of strings.\<close>

datatype stored = ObjV "string \<Rightarrow> bool option" | ArrV "string list"

text \<open>A tab as \<^verbatim>\<open>chrome.tabs.query\<close> reports it; both fields may be undefined.\<close>

record tab =
  tab_id :: "int option"
  tab_url :: "string option"

text \<open>How a call to an asynchronous host function ends: the binding throws at the
  call, the promise is rejected (callback style: \<^verbatim>\<open>lastError\<close> is set and the
  callback receives \<^verbatim>\<open>undefined\<close>), or it is fulfilled.\<close>

datatype 'a outcome = Threw string | Rejected string | Fulfilled 'a

text \<open>Every host call and console line of the scripts, as it is made.\<close>

datatype action =
    TabsQuery
  | ExecuteScript "int option"
  | TabsReload "int option"
  | StorageGet string
  | StorageSet string
  | StorageRemove string
  | AddListener string string
  | ConsoleLog string
  | ConsoleWarn string
  | ConsoleError string
  | Uncaught string

subsection \<open>The page of a tab\<close>

text \<open>A DOM node: an element with its identity (an element is one object, told from
  every other element of the page, whatever its content), its \<^verbatim>\<open>tagName\<close>, the value
  of its \<^verbatim>\<open>src\<close> property (the empty string when it has none) and its children, or a
  node that is not an element (\<^verbatim>\<open>tagName\<close> undefined).\<close>

datatype node =
    Element (node_id: nat) (tagName: string) (src: string) (childNodes: "node list")
  | TextNode string

text \<open>A mutation record, reduced to the field the observer reads.\<close>

record mutation =
  addedNodes :: "node list"

text \<open>A page: its location, the children of its document node (the document element,
  when there is one) and the blocked sets of the mutation observers installed on it
  (each observes the whole document, \<^verbatim>\<open>{ childList: true, subtree: true }\<close>).\<close>

record page =
  location_href :: string
  document_children :: "node list"
  observers :: "string list list"

subsection \<open>The popup and the browser\<close>

text \<open>A row of the popup's list: \<^verbatim>\<open>LiText\<close> is a row holding plain text only,
  \<^verbatim>\<open>LiMarkup s\<close> a row whose content was assigned through \<^verbatim>\<open>innerHTML = s\<close> (the
  string is parsed as HTML), \<^verbatim>\<open>LiEntry title text checked\<close> a row built with the DOM
  API: a span with \<^verbatim>\<open>title\<close> and \<^verbatim>\<open>textContent\<close> and a checkbox.\<close>

datatype li = LiText string | LiMarkup string | LiEntry string string bool

record world =
  script_list :: "li list option"
  refresh_btn :: bool
  save_btn :: bool
  session_area :: "(string \<Rightarrow> stored option) option"
  local_area :: "string \<Rightarrow> stored option"
  pages :: "int \<Rightarrow> page option"
  trace :: "action list"

definition emit :: "action \<Rightarrow> world \<Rightarrow> world" where
  "emit a w = w\<lparr>trace := trace w @ [a]\<rparr>"

section \<open>scripts/blocking.js\<close>

subsection \<open>Storage helpers\<close>

text \<open>
  \<^verbatim>\<open>storageGet\<close>, \<^verbatim>\<open>storageSet\<close> and \<^verbatim>\<open>storageRemoveKey\<close> use
  \<^verbatim>\<open>chrome.storage.session\<close> when it exists and \<^verbatim>\<open>chrome.storage.local\<close> otherwise,
  and always resolve. The flag \<open>ok\<close> is the host's answer for the call: when it is
  \<open>False\<close> the call failed, \<^verbatim>\<open>chrome.runtime.lastError\<close> is set, the callback's
  argument is \<^verbatim>\<open>undefined\<close> and the store is unchanged. None of the three reads
  \<^verbatim>\<open>lastError\<close>. (\<^verbatim>\<open>chrome.storage\<close> itself is taken to exist: the manifest that
  grants it is not part of the sources.)
\<close>

definition area_in_use :: "world \<Rightarrow> string \<Rightarrow> stored option" where
  "area_in_use w = (case session_area w of Some s \<Rightarrow> s | None \<Rightarrow> local_area w)"

definition storageGet :: "bool \<Rightarrow> string \<Rightarrow> world \<Rightarrow> (string \<Rightarrow> stored option) \<times> world" where
  "storageGet ok key w =
     (let area = area_in_use w;
          res = (if ok then Some (\<lambda>k. if k = key then area k else None) else None)
      in (case res of Some items \<Rightarrow> items | None \<Rightarrow> Map.empty,
          emit (StorageGet key) w))"

definition storageSet :: "bool \<Rightarrow> string \<Rightarrow> stored \<Rightarrow> world \<Rightarrow> world" where
  "storageSet ok key v w =
     emit (StorageSet key)
       (if ok then
          (case session_area w of
             Some s \<Rightarrow> w\<lparr>session_area := Some (s(key \<mapsto> v))\<rparr>
           | None \<Rightarrow> w\<lparr>local_area := (local_area w)(key \<mapsto> v)\<rparr>)
        else w)"

definition storageRemoveKey :: "bool \<Rightarrow> string \<Rightarrow> world \<Rightarrow> world" where
  "storageRemoveKey ok key w =
     emit (StorageRemove key)
       (if ok then
          (case session_area w of
             Some s \<Rightarrow> w\<lparr>session_area := Some (s(key := None))\<rparr>
           | None \<Rightarrow> w\<lparr>local_area := (local_area w)(key := None)\<rparr>)
        else w)"

subsection \<open>The blocked map\<close>

definition STORAGE_KEY :: string where
  "STORAGE_KEY = ''blocked_scripts''"

text \<open>\<^verbatim>\<open>res[STORAGE_KEY] || {}\<close>. Only objects are written under this key (by
  \<^verbatim>\<open>setBlockedMap\<close>); an array found there has no URL property and reads as the
  empty map.\<close>

definition getBlockedMap :: "bool \<Rightarrow> world \<Rightarrow> (string \<Rightarrow> bool option) \<times> world" where
  "getBlockedMap ok w =
     (let (res, w') = storageGet ok STORAGE_KEY w
      in (case res STORAGE_KEY of Some (ObjV m) \<Rightarrow> m | _ \<Rightarrow> Map.empty, w'))"

definition setBlockedMap :: "bool \<Rightarrow> (string \<Rightarrow> bool option) \<Rightarrow> world \<Rightarrow> world" where
  "setBlockedMap ok m w = storageSet ok STORAGE_KEY (ObjV m) w"

text \<open>The blocked map is a plain object: the model keeps its own properties, and what
  it inherits from \<^verbatim>\<open>Object.prototype\<close> is the same for every such object. These are
  the names of the properties of \<^verbatim>\<open>Object.prototype\<close>; the value of each is truthy.\<close>

definition Object_prototype_names :: "string list" where
  "Object_prototype_names =
     [''constructor'', ''__defineGetter__'', ''__defineSetter__'', ''hasOwnProperty'',
      ''__lookupGetter__'', ''__lookupSetter__'', ''isPrototypeOf'', ''propertyIsEnumerable'',
      ''toString'', ''valueOf'', ''__proto__'', ''toLocaleString'']"

text \<open>\<^verbatim>\<open>map[urlKey] = true\<close>. For the name \<^verbatim>\<open>__proto__\<close> the assignment reaches the
  setter of \<^verbatim>\<open>Object.prototype\<close>, which ignores a value that is not an object: no
  property is created. (An own property of that name, as a store may hand back, is
  assigned like any other.)\<close>

definition assign_true :: "(string \<Rightarrow> bool option) \<Rightarrow> string \<Rightarrow> (string \<Rightarrow> bool option)" where
  "assign_true m k = (if k = ''__proto__'' \<and> m k = None then m else m(k \<mapsto> True))"

text \<open>Whether \<^verbatim>\<open>blocked[k]\<close> is truthy: the own property when there is one, the
  inherited one otherwise.\<close>

definition truthy_at :: "(string \<Rightarrow> bool option) \<Rightarrow> string \<Rightarrow> bool" where
  "truthy_at m k = (case m k of Some v \<Rightarrow> v | None \<Rightarrow> k \<in> set Object_prototype_names)"

text \<open>\<^verbatim>\<open>updateBlockedEntry(urlKey, shouldBlock)\<close>: read, set or delete the key,
  write back, return the map. The two flags are the host's answers to the read and
  to the write.\<close>

definition updateBlockedEntry ::
    "bool \<times> bool \<Rightarrow> string \<Rightarrow> bool \<Rightarrow> world \<Rightarrow> (string \<Rightarrow> bool option) \<times> world" where
  "updateBlockedEntry oks urlKey shouldBlock w =
     (let (m, w1) = getBlockedMap (fst oks) w;
          m' = (if shouldBlock then assign_true m urlKey else m(urlKey := None));
          w2 = setBlockedMap (snd oks) m' w1
      in (m', w2))"

subsection \<open>Resolving URLs\<close>

text \<open>
  \<^verbatim>\<open>new URL(rawUrl, base).href\<close> is the browser's: \<open>URL raw base\<close> is \<open>Some href\<close>
  when the constructor returns and \<open>None\<close> when it throws. The scripts' functions
  take it as a parameter.
\<close>

type_synonym url_ctor = "string \<Rightarrow> string \<Rightarrow> string option"

definition toAbsolute :: "url_ctor \<Rightarrow> string \<Rightarrow> string \<Rightarrow> string" where
  "toAbsolute URL rawUrl base =
     (case URL rawUrl base of
        Some href \<Rightarrow> href
      | None \<Rightarrow> (if rawUrl \<noteq> [] then rawUrl else []))"

text \<open>\<^verbatim>\<open>String.prototype.toLowerCase\<close>, on the bytes of the string: only the ASCII
  capitals change (no other character lower-cases to a letter of \<^verbatim>\<open>script\<close>).\<close>

definition lower_char :: "char \<Rightarrow> char" where
  "lower_char c =
     (let n = (of_char c :: nat) in if 65 \<le> n \<and> n \<le> 90 then char_of (n + 32) else c)"

definition toLowerCase :: "string \<Rightarrow> string" where
  "toLowerCase s = map lower_char s"

subsection \<open>The probe that \<^verbatim>\<open>removeScriptsInTab\<close> injects\<close>

text \<open>\<^verbatim>\<open>abs\<close> of the probe: \<^verbatim>\<open>toAbsolute\<close> against the page's \<^verbatim>\<open>location.href\<close>.\<close>

definition abs_in_page :: "url_ctor \<Rightarrow> page \<Rightarrow> string \<Rightarrow> string" where
  "abs_in_page URL pg u =
     (case URL u (location_href pg) of
        Some href \<Rightarrow> href
      | None \<Rightarrow> (if u \<noteq> [] then u else []))"

definition is_script :: "node \<Rightarrow> bool" where
  "is_script n = (case n of Element i t s cs \<Rightarrow> toLowerCase t = ''script'' | TextNode x \<Rightarrow> False)"

text \<open>\<^verbatim>\<open>document.getElementsByTagName("script")\<close>: the script elements of the
  document, in tree order. An HTML element reports its tag name in capitals; the
  collection holds it whatever the case of the name.\<close>

fun scripts_in :: "node \<Rightarrow> node list" where
  "scripts_in (Element i t s cs) =
     (if toLowerCase t = ''script'' then [Element i t s cs] else []) @ concat (map scripts_in cs)"
| "scripts_in (TextNode x) = []"

text \<open>The identities of the elements of a tree, in tree order; the elements
  themselves; and the identities of the elements of a list of nodes.\<close>

fun ids_of :: "node \<Rightarrow> nat list" where
  "ids_of (Element i t s cs) = i # concat (map ids_of cs)"
| "ids_of (TextNode x) = []"

fun elements_of :: "node \<Rightarrow> node list" where
  "elements_of (Element i t s cs) = Element i t s cs # concat (map elements_of cs)"
| "elements_of (TextNode x) = []"

definition identities :: "node list \<Rightarrow> nat list" where
  "identities ns = concat (map (\<lambda>n. case n of Element i t s cs \<Rightarrow> [i] | TextNode x \<Rightarrow> []) ns)"

text \<open>\<^verbatim>\<open>n.remove()\<close> for the elements whose identities are in \<open>doomed\<close>: each leaves its
  parent, with what it contains. Nothing else in the tree changes.\<close>

definition kept :: "nat list \<Rightarrow> node \<Rightarrow> bool" where
  "kept doomed c = (case c of Element i t s cs \<Rightarrow> i \<notin> set doomed | TextNode x \<Rightarrow> True)"

fun detach :: "nat list \<Rightarrow> node \<Rightarrow> node" where
  "detach doomed (Element i t s cs) =
     Element i t s (map (detach doomed) (filter (kept doomed) cs))"
| "detach doomed (TextNode x) = TextNode x"

definition remove_nodes :: "nat list \<Rightarrow> node list \<Rightarrow> node list" where
  "remove_nodes doomed roots = map (detach doomed) (filter (kept doomed) roots)"

text \<open>The condition of both loops of the probe:
  \<^verbatim>\<open>s.src && blockedSet.has(abs(s.src))\<close>.\<close>

definition src_blocked :: "url_ctor \<Rightarrow> page \<Rightarrow> string list \<Rightarrow> node \<Rightarrow> bool" where
  "src_blocked URL pg blockedSet n =
     (case n of
        Element i t s cs \<Rightarrow> s \<noteq> [] \<and> abs_in_page URL pg s \<in> set blockedSet
      | TextNode x \<Rightarrow> False)"

text \<open>The observer's callback: the nodes on which it calls \<^verbatim>\<open>n.remove()\<close>, in
  order. It reads the \<^verbatim>\<open>addedNodes\<close> of each record and nothing below them.\<close>

definition observer_callback :: "url_ctor \<Rightarrow> page \<Rightarrow> string list \<Rightarrow> mutation list \<Rightarrow> node list" where
  "observer_callback URL pg blockedSet mutations =
     concat (map (\<lambda>m. filter (\<lambda>n.
         (case n of
            Element i t s cs \<Rightarrow> t \<noteq> [] \<and> toLowerCase t = ''script'' \<and> src_blocked URL pg blockedSet n
          | TextNode x \<Rightarrow> False)) (addedNodes m)) mutations)"

text \<open>The function injected into the page (\<^verbatim>\<open>func: (blockedUrls) => ...\<close>): the
  blocked set is the list of resolved blocked URLs, the matching script elements of
  the document are removed, and an observer with that set is installed.\<close>

definition probe :: "url_ctor \<Rightarrow> string list \<Rightarrow> page \<Rightarrow> page" where
  "probe URL blockedUrls pg =
     (let blockedSet = map (abs_in_page URL pg) blockedUrls;
          scripts = concat (map scripts_in (document_children pg));
          doomed = filter (src_blocked URL pg blockedSet) scripts
      in pg\<lparr>document_children := remove_nodes (identities doomed) (document_children pg),
            observers := observers pg @ [blockedSet]\<rparr>)"

text \<open>The page after its observers have been called with a batch of records: the
  elements on which the callbacks call \<^verbatim>\<open>n.remove()\<close> leave the document.\<close>

definition deliver :: "url_ctor \<Rightarrow> mutation list \<Rightarrow> page \<Rightarrow> page" where
  "deliver URL mutations pg =
     pg\<lparr>document_children :=
          remove_nodes
            (identities (concat (map (\<lambda>bs. observer_callback URL pg bs mutations) (observers pg))))
            (document_children pg)\<rparr>"

text \<open>A script of the page appends the node \<open>n\<close> to the element \<open>p\<close> of the document
  (\<^verbatim>\<open>p.appendChild(n)\<close>): \<open>n\<close> becomes the last child of \<open>p\<close>, and the observers receive
  one record, whose \<^verbatim>\<open>addedNodes\<close> holds \<open>n\<close>.\<close>

fun append_under :: "nat \<Rightarrow> node \<Rightarrow> node \<Rightarrow> node" where
  "append_under p n (Element i t s cs) =
     Element i t s (map (append_under p n) cs @ (if i = p then [n] else []))"
| "append_under p n (TextNode x) = TextNode x"

definition appendChild :: "url_ctor \<Rightarrow> nat \<Rightarrow> node \<Rightarrow> page \<Rightarrow> page" where
  "appendChild URL p n pg =
     (if p \<in> set (concat (map ids_of (document_children pg)))
      then deliver URL [\<lparr>addedNodes = [n]\<rparr>]
             (pg\<lparr>document_children := map (append_under p n) (document_children pg)\<rparr>)
      else pg)"

text \<open>JavaScript's \<^verbatim>\<open>!tabId\<close> for a tab id: undefined, null and 0 are falsy.\<close>

definition falsy_id :: "int option \<Rightarrow> bool" where
  "falsy_id i = (case i of None \<Rightarrow> True | Some n \<Rightarrow> n = 0)"

text \<open>\<^verbatim>\<open>removeScriptsInTab(tabId, urls = [])\<close>. \<open>urls = None\<close> is an absent list
  (\<^verbatim>\<open>undefined\<close> takes the default \<^verbatim>\<open>[]\<close>, \<^verbatim>\<open>null\<close> is falsy). The host rejects the
  injection when it has no page for the tab that scripts may enter; the rejection is
  caught and logged with \<^verbatim>\<open>console.warn\<close>.\<close>

definition removeScriptsInTab :: "url_ctor \<Rightarrow> int option \<Rightarrow> string list option \<Rightarrow> world \<Rightarrow> world" where
  "removeScriptsInTab URL tabId urls w =
     (if falsy_id tabId \<or> urls = None \<or> urls = Some [] then w
      else
        (case (tabId, urls) of
           (Some t, Some us) \<Rightarrow>
             (let w1 = emit (ExecuteScript tabId) w
              in (case pages w1 t of
                    Some pg \<Rightarrow> w1\<lparr>pages := (pages w1)(t \<mapsto> probe URL us pg)\<rparr>
                  | None \<Rightarrow> emit (ConsoleWarn ''removeScriptsInTab error:'') w1))
         | _ \<Rightarrow> w))"

subsection \<open>What the probe is to do\<close>

text \<open>The document without the nodes that satisfy \<open>P\<close>: each of them is taken out with
  what it contains, and every other node stays where it was.\<close>

fun without :: "(node \<Rightarrow> bool) \<Rightarrow> node \<Rightarrow> node" where
  "without P (Element i t s cs) = Element i t s (map (without P) (filter (\<lambda>c. \<not> P c) cs))"
| "without P (TextNode x) = TextNode x"

definition document_without :: "(node \<Rightarrow> bool) \<Rightarrow> node list \<Rightarrow> node list" where
  "document_without P roots = map (without P) (filter (\<lambda>c. \<not> P c) roots)"

subsection \<open>Checkbox changes\<close>

text \<open>What the blocking module reads of the popup's DOM. For an input element: its
  \<^verbatim>\<open>type\<close>, its \<^verbatim>\<open>checked\<close> state and its closest \<^verbatim>\<open>li\<close> (if any). For that
  \<^verbatim>\<open>li\<close>: the \<^verbatim>\<open>title\<close> attribute of the first element found by
  \<^verbatim>\<open>span[title]\<close>, \<^verbatim>\<open>strong[title]\<close> (if any), and the text of its \<^verbatim>\<open>.src\<close>
  element (if any).\<close>

record li_view =
  title_attr :: "string option"
  src_text :: "string option"

record input_el =
  input_type :: string
  checked :: bool
  closest_li :: "li_view option"

text \<open>The host's answers during one handler: the tabs \<^verbatim>\<open>chrome.tabs.query\<close>
  returns, the popup's own \<^verbatim>\<open>location.href\<close>, and whether the storage read and the
  storage write succeed.\<close>

record host =
  active_tabs :: "tab list"
  popup_href :: string
  get_ok :: bool
  set_ok :: bool

text \<open>\<^verbatim>\<open>(tabs && tabs[0] && tabs[0].url) ? tabs[0].url : location.href\<close>\<close>

definition base_of :: "host \<Rightarrow> string" where
  "base_of h =
     (case active_tabs h of
        [] \<Rightarrow> popup_href h
      | t # ts \<Rightarrow>
          (case tab_url t of
             None \<Rightarrow> popup_href h
           | Some u \<Rightarrow> if u \<noteq> [] then u else popup_href h))"

text \<open>\<^verbatim>\<open>getUrlFromCheckbox(chk)\<close>. \<^verbatim>\<open>raw\<close> is declared \<^verbatim>\<open>const\<close>: the assignment
  in the \<^verbatim>\<open>.src\<close> branch throws a TypeError when it is reached (\<open>Inl\<close>).\<close>

definition getUrlFromCheckbox ::
    "url_ctor \<Rightarrow> host \<Rightarrow> input_el option \<Rightarrow> world \<Rightarrow> (string + string) \<times> world" where
  "getUrlFromCheckbox URL h chk w =
     (case chk of
        None \<Rightarrow> (Inr [], w)
      | Some c \<Rightarrow>
          (case closest_li c of
             None \<Rightarrow> (Inr [], w)
           | Some li \<Rightarrow>
               (let raw = (case title_attr li of Some t \<Rightarrow> t | None \<Rightarrow> [])
                in if raw = [] \<and> src_text li \<noteq> None
                   then (Inl ''TypeError: Assignment to constant variable.'', w)
                   else (let w1 = emit TabsQuery w;
                             base = base_of h
                         in (Inr (toAbsolute URL raw base), w1)))))"

text \<open>\<^verbatim>\<open>onCheckboxChange(e)\<close>, with \<open>target = e.target\<close>. The first component of
  the result is the error the returned promise is rejected with, if any.\<close>

definition onCheckboxChange ::
    "url_ctor \<Rightarrow> host \<Rightarrow> input_el option \<Rightarrow> world \<Rightarrow> string option \<times> world" where
  "onCheckboxChange URL h target w =
     (case target of
        None \<Rightarrow> (None, w)
      | Some t \<Rightarrow>
          if input_type t \<noteq> ''checkbox'' then (None, w)
          else
            (case getUrlFromCheckbox URL h target w of
               (Inl err, w1) \<Rightarrow> (Some err, w1)
             | (Inr urlKey, w1) \<Rightarrow>
                 if urlKey = [] then (None, w1)
                 else
                   (let (newMap, w2) = updateBlockedEntry (get_ok h, set_ok h) urlKey (checked t) w1;
                        w3 = emit TabsQuery w2
                    in (case active_tabs h of
                          [] \<Rightarrow> (None, w3)
                        | tb # tbs \<Rightarrow>
                            if tab_id tb \<noteq> None \<and> checked t
                            then (None, removeScriptsInTab URL (tab_id tb) (Some [urlKey]) w3)
                            else (None, w3)))))"

text \<open>The delegated listener that \<^verbatim>\<open>init\<close> attaches:
  \<^verbatim>\<open>onCheckboxChange(e).catch(err => console.error("checkbox handler err", err))\<close>.\<close>

definition change_listener :: "url_ctor \<Rightarrow> host \<Rightarrow> input_el option \<Rightarrow> world \<Rightarrow> world" where
  "change_listener URL h target w =
     (case onCheckboxChange URL h target w of
        (Some err, w') \<Rightarrow> emit (ConsoleError ''checkbox handler err'') w'
      | (None, w') \<Rightarrow> w')"

subsection \<open>Initialisation\<close>

text \<open>The body of \<^verbatim>\<open>inputs.forEach\<close> in \<^verbatim>\<open>init\<close>: the raw URL of a checkbox, and the
  checkbox after reconciliation with the blocked map.\<close>

definition raw_of :: "input_el \<Rightarrow> string" where
  "raw_of inp =
     (case closest_li inp of
        None \<Rightarrow> []
      | Some li \<Rightarrow>
          (let raw = (case title_attr li of Some t \<Rightarrow> t | None \<Rightarrow> [])
           in if raw = [] then (case src_text li of Some x \<Rightarrow> x | None \<Rightarrow> []) else raw))"

definition reconcile :: "url_ctor \<Rightarrow> string \<Rightarrow> (string \<Rightarrow> bool option) \<Rightarrow> input_el \<Rightarrow> input_el" where
  "reconcile URL base blocked inp =
     (let a = toAbsolute URL (raw_of inp) base
      in if a \<noteq> [] \<and> truthy_at blocked a then inp\<lparr>checked := True\<rparr> else inp)"

text \<open>\<^verbatim>\<open>init()\<close>. \<open>list = None\<close>: the popup has no \<^verbatim>\<open>#script-list\<close>; otherwise
  \<open>list\<close> holds the checkboxes found inside it when the blocked map has been read.
  The listener is attached first; the reconciliation follows in an asynchronous
  block that \<^verbatim>\<open>init\<close> does not wait for.\<close>

definition init ::
    "url_ctor \<Rightarrow> host \<Rightarrow> input_el list option \<Rightarrow> world \<Rightarrow> input_el list option \<times> world" where
  "init URL h list w =
     (case list of
        None \<Rightarrow> (None, w)
      | Some inputs \<Rightarrow>
          (let w1 = emit (AddListener ''script-list'' ''change'') w;
               (blocked, w2) = getBlockedMap (get_ok h) w1
           in if inputs = [] then (Some inputs, w2)
              else (let w3 = emit TabsQuery w2;
                        base = base_of h
                    in (Some (map (reconcile URL base blocked) inputs), w3))))"

section \<open>scripts/script.js\<close>

text \<open>
  Three revisions of the popup script are in the sources: the first two in
  \<^verbatim>\<open>scripts/script.js\<close>, the third (with the save button) in \<^verbatim>\<open>part_000\<close>. Each is
  the listener of
  \<^verbatim>\<open>DOMContentLoaded\<close>. Its inputs are the first tab that \<^verbatim>\<open>chrome.tabs.query\<close>
  returns (\<open>None\<close> when there is none) and the outcome of the injection of the
  listing probe.
\<close>

subsection \<open>Shared pieces\<close>

text \<open>The listing probe, run inside the page:
  \<^verbatim>\<open>Array.from(document.scripts).map(s => s.src).filter(Boolean)\<close>.\<close>

definition list_probe :: "page \<Rightarrow> string list" where
  "list_probe pg = filter (\<lambda>u. u \<noteq> []) (map src (concat (map scripts_in (document_children pg))))"

text \<open>\<^verbatim>\<open>results?.[0]?.result || []\<close>: the injection results are an array of frame
  results (or undefined), each with a \<^verbatim>\<open>result\<close> (or undefined).\<close>

definition scripts_of_results :: "string list option list option \<Rightarrow> string list" where
  "scripts_of_results results =
     (case results of
        None \<Rightarrow> []
      | Some [] \<Rightarrow> []
      | Some (frame # frames) \<Rightarrow> (case frame of None \<Rightarrow> [] | Some scripts \<Rightarrow> scripts))"

text \<open>\<^verbatim>\<open>src.split("/").pop()\<close>: what follows the last slash.\<close>

definition last_segment :: "string \<Rightarrow> string" where
  "last_segment u = rev (takeWhile (\<lambda>c. c \<noteq> CHR ''/'') (rev u))"

text \<open>An assignment to \<^verbatim>\<open>list.innerHTML\<close> or a \<^verbatim>\<open>list.appendChild\<close>: a TypeError
  when the popup has no \<^verbatim>\<open>#script-list\<close>.\<close>

definition null_list_error :: string where
  "null_list_error = ''TypeError: list is null''"

definition set_list :: "li list \<Rightarrow> world \<Rightarrow> string option \<times> world" where
  "set_list items w =
     (case script_list w of
        None \<Rightarrow> (Some null_list_error, w)
      | Some old \<Rightarrow> (None, w\<lparr>script_list := Some items\<rparr>))"

text \<open>The number of rows of the popup's list, as a reader of the popup counts them.\<close>

definition row_count :: "world \<Rightarrow> nat" where
  "row_count w = (case script_list w of None \<Rightarrow> 0 | Some rows \<Rightarrow> length rows)"

text \<open>The template literal that the first two revisions assign to \<^verbatim>\<open>li.innerHTML\<close>;
  \<open>pad\<close> is the indentation of its lines in the source.\<close>

definition row_html :: "string \<Rightarrow> string \<Rightarrow> string \<Rightarrow> string" where
  \<open>row_html pad pad_end u =
     [CHR 0x0A] @ pad @ ''<span title="'' @ u @ ''">'' @ last_segment u @ ''</span>'' @
     [CHR 0x0A] @ pad @ ''<input type="checkbox" />'' @
     [CHR 0x0A] @ pad_end\<close>

definition NO_TAB :: string where
  "NO_TAB = ''No active tab found.''"

definition NO_SCRIPTS :: string where
  "NO_SCRIPTS = ''No external JS files found.''"

subsection \<open>First revision\<close>

text \<open>The callback of \<^verbatim>\<open>executeScript\<close>; an exception in it is uncaught.\<close>

definition render_v1 :: "string list option list option \<Rightarrow> world \<Rightarrow> world" where
  "render_v1 results w =
     (let scripts = scripts_of_results results
      in (case set_list [] w of
            (Some err, w1) \<Rightarrow> emit (Uncaught err) w1
          | (None, w1) \<Rightarrow>
              if length scripts = 0 then snd (set_list [LiText NO_SCRIPTS] w1)
              else snd (set_list
                     (map (\<lambda>u. LiMarkup (row_html (replicate 20 CHR '' '') (replicate 16 CHR '' '') u))
                        scripts) w1)))"

text \<open>The listener. There is no guard on the tab and no \<^verbatim>\<open>try\<close>: reading
  \<^verbatim>\<open>tab.id\<close> of an undefined tab, a throwing \<^verbatim>\<open>executeScript\<close> and a missing
  \<^verbatim>\<open>#refresh-btn\<close> each end the listener with an uncaught TypeError. The callback
  runs after the rest of the listener.\<close>

definition popup_v1 :: "tab option \<Rightarrow> string list option list option outcome \<Rightarrow> world \<Rightarrow> world" where
  "popup_v1 tb exec w =
     (let w1 = emit TabsQuery w
      in (case tb of
            None \<Rightarrow> emit (Uncaught ''TypeError: tab is undefined'') w1
          | Some t \<Rightarrow>
              (let w2 = emit (ExecuteScript (tab_id t)) w1
               in (case exec of
                     Threw msg \<Rightarrow> emit (Uncaught msg) w2
                   | Rejected msg \<Rightarrow>
                       render_v1 None
                         (if refresh_btn w2 then emit (AddListener ''refresh-btn'' ''click'') w2
                          else emit (Uncaught ''TypeError: refreshBtn is null'') w2)
                   | Fulfilled results \<Rightarrow>
                       render_v1 results
                         (if refresh_btn w2 then emit (AddListener ''refresh-btn'' ''click'') w2
                          else emit (Uncaught ''TypeError: refreshBtn is null'') w2)))))"

subsection \<open>Second revision\<close>

text \<open>The \<^verbatim>\<open>catch\<close> block of the second and third revisions: the error is logged
  and shown as the only row. The message is interpolated into the markup assigned to
  \<^verbatim>\<open>list.innerHTML\<close>. Without a list the block itself throws.\<close>

definition catch_error :: "string \<Rightarrow> world \<Rightarrow> world" where
  "catch_error msg w =
     (let w1 = emit (ConsoleError ''Error:'') w
      in (case set_list [LiMarkup (''Error: '' @ msg)] w1 of
            (Some err, w2) \<Rightarrow> emit (Uncaught err) w2
          | (None, w2) \<Rightarrow> w2))"

text \<open>The \<^verbatim>\<open>try\<close> block: the error thrown in it (if any) and the state reached.\<close>

definition popup_v2_try ::
    "tab option \<Rightarrow> string list option list option outcome \<Rightarrow> world \<Rightarrow> string option \<times> world" where
  "popup_v2_try tb exec w =
     (let w1 = emit TabsQuery w
      in if (case tb of None \<Rightarrow> True | Some t \<Rightarrow> falsy_id (tab_id t))
         then set_list [LiText NO_TAB] w1
         else
           (let w2 = emit (ExecuteScript (case tb of None \<Rightarrow> None | Some t \<Rightarrow> tab_id t)) w1
            in (case exec of
                  Threw msg \<Rightarrow> (Some msg, w2)
                | Rejected msg \<Rightarrow> (Some msg, w2)
                | Fulfilled results \<Rightarrow>
                    (let scripts = scripts_of_results results
                     in (case set_list [] w2 of
                           (Some err, w3) \<Rightarrow> (Some err, w3)
                         | (None, w3) \<Rightarrow>
                             if length scripts = 0 then set_list [LiText NO_SCRIPTS] w3
                             else
                               (let w4 = snd (set_list
                                      (map (\<lambda>u. LiMarkup
                                          (row_html (replicate 16 CHR '' '') (replicate 12 CHR '' '') u))
                                        scripts) w3)
                                in if refresh_btn w4
                                   then (None, emit (AddListener ''refresh-btn'' ''click'') w4)
                                   else (Some ''TypeError: refreshBtn is null'', w4)))))))"

definition popup_v2 :: "tab option \<Rightarrow> string list option list option outcome \<Rightarrow> world \<Rightarrow> world" where
  "popup_v2 tb exec w =
     (case popup_v2_try tb exec w of
        (None, w') \<Rightarrow> w'
      | (Some msg, w') \<Rightarrow> catch_error msg w')"

subsection \<open>Third revision\<close>

text \<open>\<^verbatim>\<open>"blocked_" + tab.id\<close>: the decimal digits of the tab id.\<close>

function digits_of :: "nat \<Rightarrow> string" where
  "digits_of n = (if n < 10 then [char_of (48 + n)] else digits_of (n div 10) @ [char_of (48 + n mod 10)])"
  by pat_completeness auto
termination
  by (relation "measure id") auto

declare digits_of.simps [simp del]

definition number_string :: "int \<Rightarrow> string" where
  "number_string i = (if i < 0 then CHR ''-'' # digits_of (nat (- i)) else digits_of (nat i))"

definition storageKey :: "int \<Rightarrow> string" where
  "storageKey i = ''blocked_'' @ number_string i"

text \<open>A row as the third revision builds it: \<^verbatim>\<open>span.title = src\<close>,
  \<^verbatim>\<open>span.textContent = src.split("/").pop() || src\<close>, an unchecked checkbox.\<close>

definition row_v3 :: "string \<Rightarrow> li" where
  "row_v3 u = LiEntry u (if last_segment u \<noteq> [] then last_segment u else u) False"

text \<open>The \<^verbatim>\<open>try\<close> block: the error thrown in it (if any), the storage key whose
  \<^verbatim>\<open>get\<close> callback is still to run (if the call was reached), and the state.\<close>

definition popup_v3_try ::
    "tab option \<Rightarrow> string list option list option outcome \<Rightarrow> world
       \<Rightarrow> string option \<times> string option \<times> world" where
  "popup_v3_try tb exec w =
     (let w1 = emit TabsQuery w
      in (case (case tb of None \<Rightarrow> None | Some t \<Rightarrow> if falsy_id (tab_id t) then None else tab_id t) of
            None \<Rightarrow> (fst (set_list [LiText NO_TAB] w1), None, snd (set_list [LiText NO_TAB] w1))
          | Some i \<Rightarrow>
              (let w2 = emit (ExecuteScript (Some i)) w1
               in (case exec of
                     Threw msg \<Rightarrow> (Some msg, None, w2)
                   | Rejected msg \<Rightarrow> (Some msg, None, w2)
                   | Fulfilled results \<Rightarrow>
                       (let scripts = scripts_of_results results
                        in (case set_list [] w2 of
                              (Some err, w3) \<Rightarrow> (Some err, None, w3)
                            | (None, w3) \<Rightarrow>
                                if length scripts = 0
                                then (None, None, snd (set_list [LiText NO_SCRIPTS] w3))
                                else
                                  (let w4 = snd (set_list (map row_v3 scripts) w3);
                                       w5 = emit (StorageGet (storageKey i)) w4
                                   in if save_btn w5
                                      then (None, Some (storageKey i),
                                            emit (AddListener ''save-btn'' ''click'') w5)
                                      else (Some ''TypeError: saveBtn is null'',
                                            Some (storageKey i), w5))))))))"

text \<open>The callback of \<^verbatim>\<open>chrome.storage.local.get\<close>: on \<^verbatim>\<open>lastError\<close> it logs and
  returns; otherwise \<^verbatim>\<open>res[storageKey] || []\<close> is read as an array and the rows whose
  title it includes are checked.\<close>

definition restore_row :: "string list \<Rightarrow> li \<Rightarrow> li" where
  "restore_row blocked r =
     (case r of
        LiEntry t l c \<Rightarrow> LiEntry t l (if t \<noteq> [] \<and> t \<in> set blocked then True else c)
      | _ \<Rightarrow> r)"

definition restore_callback :: "bool \<Rightarrow> string \<Rightarrow> world \<Rightarrow> world" where
  "restore_callback ok key w =
     (if \<not> ok then emit (ConsoleError ''Storage get error:'') w
      else
        (case script_list w of
           None \<Rightarrow> emit (Uncaught null_list_error) w
         | Some rows \<Rightarrow>
             (case local_area w key of
                Some (ObjV m) \<Rightarrow>
                  if list_ex (\<lambda>r. case r of LiEntry t l c \<Rightarrow> t \<noteq> [] | _ \<Rightarrow> False) rows
                  then emit (Uncaught ''TypeError: blocked.includes is not a function'') w
                  else emit (ConsoleLog ''Restored'') w
              | Some (ArrV blocked) \<Rightarrow>
                  emit (ConsoleLog ''Restored'') (w\<lparr>script_list := Some (map (restore_row blocked) rows)\<rparr>)
              | None \<Rightarrow>
                  emit (ConsoleLog ''Restored'') (w\<lparr>script_list := Some (map (restore_row []) rows)\<rparr>))))"

definition popup_v3 ::
    "tab option \<Rightarrow> string list option list option outcome \<Rightarrow> bool \<Rightarrow> world \<Rightarrow> world" where
  "popup_v3 tb exec ok w =
     (case popup_v3_try tb exec w of
        (thrown, pending, w1) \<Rightarrow>
          (let w2 = (case thrown of None \<Rightarrow> w1 | Some msg \<Rightarrow> catch_error msg w1)
           in (case pending of None \<Rightarrow> w2 | Some key \<Rightarrow> restore_callback ok key w2)))"

text \<open>The click listener of \<^verbatim>\<open>#save-btn\<close>, for the tab id the popup was opened on:
  the titles of the checked rows are written as an array under the tab's key, the tab
  is reloaded, and the callback of \<^verbatim>\<open>set\<close> logs the error or the success.\<close>

definition checked_titles :: "li list \<Rightarrow> string list" where
  "checked_titles rows =
     concat (map (\<lambda>r. case r of LiEntry t l c \<Rightarrow> (if c then [t] else []) | _ \<Rightarrow> []) rows)"

definition save_click :: "int \<Rightarrow> bool \<Rightarrow> world \<Rightarrow> world" where
  "save_click i ok w =
     (case script_list w of
        None \<Rightarrow> emit (ConsoleError ''Save handler error:'') w
      | Some rows \<Rightarrow>
          (let blocked = checked_titles rows;
               w1 = emit (StorageSet (storageKey i))
                      (if ok then w\<lparr>local_area := (local_area w)(storageKey i \<mapsto> ArrV blocked)\<rparr> else w);
               w2 = emit (TabsReload (Some i)) w1
           in if ok then emit (ConsoleLog ''Saved'') w2
              else emit (ConsoleError ''Storage set error:'') w2))"

section \<open>Sample inputs\<close>

text \<open>
  Values of the browser's \<^verbatim>\<open>new URL(raw, base).href\<close> at the inputs of the examples
  below: an absolute URL in normal form is returned as it is, \<^verbatim>\<open>/app.js\<close> and the
  empty string are resolved against \<^verbatim>\<open>https://example.com/page\<close> (the empty string
  gives the base itself), and the constructor throws on \<^verbatim>\<open>https://exa mple.com/x.js\<close>
  (a space in the host). The examples use no other input.
\<close>

definition URL_sample :: url_ctor where
  "URL_sample raw base =
     (if raw = ''/app.js'' \<and> base = ''https://example.com/page''
      then Some ''https://example.com/app.js''
      else if raw = [] \<and> base = ''https://example.com/page''
      then Some ''https://example.com/page''
      else if raw \<in> set [''https://cdn.a/x.js'', ''https://cdn.b/y.js'',
                          ''https://example.com/app.js'', ''https://example.com/page'']
      then Some raw
      else None)"

definition page0 :: page where
  "page0 =
     \<lparr>location_href = ''https://example.com/page'',
      document_children =
        [Element 1 ''HTML'' []
           [Element 2 ''HEAD'' []
              [Element 3 ''SCRIPT'' ''https://cdn.a/x.js'' [],
               Element 4 ''SCRIPT'' ''https://cdn.b/y.js'' []],
            Element 5 ''BODY'' [] [TextNode ''hi'', Element 6 ''SCRIPT'' [] [TextNode ''inline'']]]],
      observers = []\<rparr>"

definition page1 :: page where
  "page1 =
     \<lparr>location_href = ''https://example.com/page'',
      document_children = [Element 1 ''HTML'' [] [Element 2 ''SCRIPT'' ''https://example.com/app.js'' []]],
      observers = []\<rparr>"

definition world0 :: world where
  "world0 =
     \<lparr>script_list = Some [], refresh_btn = True, save_btn = True,
      session_area = Some (Map.empty(STORAGE_KEY \<mapsto> ObjV (Map.empty(''https://cdn.b/y.js'' \<mapsto> True)))),
      local_area = Map.empty,
      pages = Map.empty(0 \<mapsto> page0, 7 \<mapsto> page0),
      trace = []\<rparr>"

definition world1 :: world where
  "world1 =
     world0\<lparr>script_list :=
       Some [LiEntry ''https://cdn.a/x.js'' ''x.js'' True,
             LiEntry ''https://cdn.b/y.js'' ''y.js'' False]\<rparr>"

definition host0 :: host where
  "host0 = \<lparr>active_tabs = [\<lparr>tab_id = Some 7, tab_url = Some ''https://example.com/page''\<rparr>],
     popup_href = ''chrome-extension://abcdefgh/popup.html'', get_ok = True, set_ok = True\<rparr>"

definition checkbox_of :: "string \<Rightarrow> bool \<Rightarrow> input_el" where
  "checkbox_of title c = \<lparr>input_type = ''checkbox'', checked = c,
      closest_li = Some \<lparr>title_attr = Some title, src_text = None\<rparr>\<rparr>"

definition tab7 :: tab where
  "tab7 = \<lparr>tab_id = Some 7, tab_url = Some ''https://example.com/page''\<rparr>"

definition URL_markup :: string where
  \<open>URL_markup = ''data:text/javascript,1//"><b>x</b>''\<close>

section \<open>Properties of the blocked map\<close>

lemma getBlockedMap_after_set:
  "fst (getBlockedMap True (setBlockedMap True m w)) = m"
  by (simp add: getBlockedMap_def setBlockedMap_def storageGet_def storageSet_def emit_def
      area_in_use_def split: option.splits)

text \<open>
  C6. Let \<open>m\<close> be the blocked map as \<^verbatim>\<open>getBlockedMap\<close> reads it and let \<open>u\<close> be a URL
  that is not a key of \<open>m\<close>. Then \<^verbatim>\<open>updateBlockedEntry(u, true)\<close> followed by
  \<^verbatim>\<open>updateBlockedEntry(u, false)\<close> returns \<open>m\<close>, and \<open>m\<close> is the map read back from the
  store afterwards: \<open>u\<close> is absent again and no other key has changed. The storage
  calls of both updates succeed here.
\<close>

theorem updateBlockedEntry_on_off:
  assumes "fst (getBlockedMap True w) = m" and "m u = None"
  shows "fst (updateBlockedEntry (True, True) u False
                (snd (updateBlockedEntry (True, True) u True w))) = m
       \<and> fst (getBlockedMap True
                (snd (updateBlockedEntry (True, True) u False
                   (snd (updateBlockedEntry (True, True) u True w))))) = m"
  using assms
  by (auto simp add: updateBlockedEntry_def getBlockedMap_after_set split_beta Let_def
      assign_true_def)

theorem updateBlockedEntry_on_off_witness:
  "fst (getBlockedMap True world0) = Map.empty(''https://cdn.b/y.js'' \<mapsto> True)
   \<and> (Map.empty(''https://cdn.b/y.js'' \<mapsto> True)) ''https://cdn.a/x.js'' = None
   \<and> fst (updateBlockedEntry (True, True) ''https://cdn.a/x.js'' False
        (snd (updateBlockedEntry (True, True) ''https://cdn.a/x.js'' True world0)))
      = Map.empty(''https://cdn.b/y.js'' \<mapsto> True)
   \<and> fst (getBlockedMap True
        (snd (updateBlockedEntry (True, True) ''https://cdn.a/x.js'' False
           (snd (updateBlockedEntry (True, True) ''https://cdn.a/x.js'' True world0)))))
      = Map.empty(''https://cdn.b/y.js'' \<mapsto> True)"
proof -
  have a: "fst (getBlockedMap True world0) = Map.empty(''https://cdn.b/y.js'' \<mapsto> True)"
    by (simp add: getBlockedMap_def storageGet_def world0_def emit_def area_in_use_def)
  have b: "(Map.empty(''https://cdn.b/y.js'' \<mapsto> True)) ''https://cdn.a/x.js'' = None"
    by simp
  from updateBlockedEntry_on_off [OF a b] a b show ?thesis by blast
qed

section \<open>Properties of the page mutator\<close>

text \<open>
  C10. When the tab id is falsy, or the URL list is absent or empty,
  \<^verbatim>\<open>removeScriptsInTab\<close> returns at once: no probe is injected (the trace gains no
  \<^verbatim>\<open>executeScript\<close> call) and every page, like the rest of the state, is unchanged.
\<close>

theorem removeScriptsInTab_guard:
  "falsy_id tabId \<or> urls = None \<or> urls = Some [] \<Longrightarrow> removeScriptsInTab URL tabId urls w = w"
  by (auto simp add: removeScriptsInTab_def)

theorem removeScriptsInTab_guard_witness:
  "falsy_id (Some 0)
   \<and> removeScriptsInTab URL_sample (Some 0) (Some [''https://cdn.a/x.js'']) world0 = world0
   \<and> pages world0 0 = Some page0"
proof -
  have a: "falsy_id (Some 0)"
    by (simp add: falsy_id_def)
  have b: "pages world0 0 = Some page0"
    by (simp add: world0_def)
  from removeScriptsInTab_guard [of "Some 0" "Some [''https://cdn.a/x.js'']" URL_sample world0] a b
  show ?thesis by blast
qed

lemma lower_SCRIPT: "toLowerCase ''SCRIPT'' = ''script''"
  by code_simp
lemma lower_HTML: "toLowerCase ''HTML'' = ''html''"
  by code_simp
lemma lower_HEAD: "toLowerCase ''HEAD'' = ''head''"
  by code_simp
lemma lower_BODY: "toLowerCase ''BODY'' = ''body''"
  by code_simp
lemma lower_DIV: "toLowerCase ''DIV'' = ''div''"
  by code_simp
lemmas lower_tags = lower_SCRIPT lower_HTML lower_HEAD lower_BODY lower_DIV

lemma identities_append: "identities (xs @ ys) = identities xs @ identities ys"
  by (simp add: identities_def)

lemma identities_Cons: "identities (Element i t s cs # xs) = i # identities xs"
  by (simp add: identities_def)

lemma scripts_in_elements: "scripts_in n = filter is_script (elements_of n)"
proof (induction n rule: scripts_in.induct)
  case (1 i t s cs)
  then have "concat (map scripts_in cs) = filter is_script (concat (map elements_of cs))"
    by (induction cs) simp_all
  moreover have "is_script (Element i t s cs) = (toLowerCase t = ''script'')"
    by (simp add: is_script_def)
  ultimately show ?case by simp
next
  case (2 x)
  then show ?case by simp
qed

lemma forest_scripts:
  "concat (map scripts_in ns) = filter is_script (concat (map elements_of ns))"
  by (induction ns) (simp_all add: scripts_in_elements)

lemma ids_of_elements: "ids_of n = identities (elements_of n)"
proof (induction n rule: ids_of.induct)
  case (1 i t s cs)
  then have "concat (map ids_of cs) = identities (concat (map elements_of cs))"
    by (induction cs) (simp_all add: identities_append, simp add: identities_def)
  then show ?case by (simp add: identities_Cons)
next
  case (2 x)
  then show ?case by (simp add: identities_def)
qed

lemma identities_set: "set (identities ns) = {i. \<exists>t s cs. Element i t s cs \<in> set ns}"
  by (induction ns) (auto simp add: identities_def split: node.splits)

lemma elements_are_elements: "c \<in> set (elements_of n) \<Longrightarrow> \<exists>i t s cs. c = Element i t s cs"
  by (induction n rule: elements_of.induct) auto

lemma forest_elements_are_elements:
  "c \<in> set (concat (map elements_of ns)) \<Longrightarrow> \<exists>i t s cs. c = Element i t s cs"
  using elements_are_elements by auto

lemma identities_of_elements:
  "\<forall>c \<in> set xs. \<exists>i t s cs. c = Element i t s cs \<Longrightarrow> identities xs = map node_id xs"
  by (induction xs) (auto simp add: identities_def)

lemma forest_ids: "concat (map ids_of ns) = map node_id (concat (map elements_of ns))"
proof -
  have "concat (map ids_of ns) = identities (concat (map elements_of ns))"
    by (induction ns) (simp_all add: identities_append ids_of_elements, simp add: identities_def)
  also have "\<dots> = map node_id (concat (map elements_of ns))"
    using forest_elements_are_elements by (intro identities_of_elements) blast
  finally show ?thesis .
qed

text \<open>Removal by identity agrees with removal by a property of the nodes when the
  identities removed are those of the elements with the property.\<close>

lemma detach_without:
  assumes "\<And>x. \<not> P (TextNode x)"
  shows "(\<forall>c \<in> set (elements_of n). kept D c = (\<not> P c)) \<Longrightarrow> detach D n = without P n"
proof (induction n rule: detach.induct)
  case (1 D i t s cs)
  have k: "kept D c = (\<not> P c)" if "c \<in> set cs" for c
  proof (cases c)
    case (Element j t' s' cs')
    then have "c \<in> set (elements_of c)" by simp
    with that "1.prems" show ?thesis by auto
  next
    case (TextNode x)
    then show ?thesis using assms by (simp add: kept_def)
  qed
  then have f: "filter (kept D) cs = filter (\<lambda>c. \<not> P c) cs"
    by (intro filter_cong) auto
  have "detach D c = without P c" if "c \<in> set (filter (kept D) cs)" for c
  proof -
    from that have c: "c \<in> set cs" and kc: "kept D c" by auto
    have "\<forall>d \<in> set (elements_of c). kept D d = (\<not> P d)"
      using "1.prems" c by auto
    from "1.IH" [OF that this] show ?thesis .
  qed
  then show ?case
    by (simp add: f cong: map_cong)
next
  case (2 D x)
  then show ?case by simp
qed

lemma remove_nodes_without:
  assumes "\<And>x. \<not> P (TextNode x)"
    and "\<forall>c \<in> set (concat (map elements_of ns)). kept D c = (\<not> P c)"
  shows "remove_nodes D ns = document_without P ns"
proof -
  have k: "kept D c = (\<not> P c)" if "c \<in> set ns" for c
  proof (cases c)
    case (Element j t' s' cs')
    then have "c \<in> set (elements_of c)" by simp
    with that assms(2) show ?thesis by auto
  next
    case (TextNode x)
    then show ?thesis using assms(1) by (simp add: kept_def)
  qed
  then have f: "filter (kept D) ns = filter (\<lambda>c. \<not> P c) ns"
    by (intro filter_cong) auto
  have "detach D c = without P c" if "c \<in> set ns" for c
    using detach_without [where P = P and n = c and D = D, OF assms(1)] assms(2) that by auto
  then show ?thesis
    by (simp add: remove_nodes_def document_without_def f cong: map_cong)
qed

lemma kept_blocked_scripts:
  assumes "distinct (concat (map ids_of ns))"
    and "c \<in> set (concat (map elements_of ns))"
  shows "kept (identities (filter B (concat (map scripts_in ns)))) c = (\<not> (is_script c \<and> B c))"
proof -
  let ?els = "concat (map elements_of ns)"
  let ?scripts = "concat (map scripts_in ns)"
  have sc: "?scripts = filter is_script ?els"
    by (rule forest_scripts)
  have inj: "inj_on node_id (set ?els)"
    using assms(1) by (simp add: forest_ids distinct_map)
  from assms(2) obtain i t s cs where c: "c = Element i t s cs"
    using forest_elements_are_elements by blast
  have "(i \<in> set (identities (filter B ?scripts))) = (is_script c \<and> B c)"
  proof
    assume "i \<in> set (identities (filter B ?scripts))"
    then obtain t' s' cs' where d: "Element i t' s' cs' \<in> set (filter B ?scripts)"
      unfolding identities_set by blast
    then have e: "Element i t' s' cs' \<in> set ?els"
      and p: "is_script (Element i t' s' cs')" "B (Element i t' s' cs')"
      by (simp_all add: sc)
    have "node_id (Element i t' s' cs') = node_id c" by (simp add: c)
    from inj_onD [OF inj this e assms(2)] have "Element i t' s' cs' = c" .
    with p show "is_script c \<and> B c" by simp
  next
    assume "is_script c \<and> B c"
    with assms(2) have "c \<in> set (filter B ?scripts)" by (simp add: sc)
    then show "i \<in> set (identities (filter B ?scripts))"
      unfolding identities_set c by blast
  qed
  then show ?thesis by (simp add: kept_def c)
qed

text \<open>The probe takes out of the document the script elements its condition holds of,
  and nothing else.\<close>

lemma probe_without:
  assumes "distinct (concat (map ids_of (document_children pg)))"
  shows "probe URL us pg
         = pg\<lparr>document_children :=
                document_without
                  (\<lambda>n. is_script n \<and> src_blocked URL pg (map (abs_in_page URL pg) us) n)
                  (document_children pg),
              observers := observers pg @ [map (abs_in_page URL pg) us]\<rparr>"
proof -
  let ?bs = "map (abs_in_page URL pg) us"
  let ?P = "\<lambda>n. is_script n \<and> src_blocked URL pg ?bs n"
  have t: "\<And>x. \<not> ?P (TextNode x)" by (simp add: is_script_def)
  have "remove_nodes
          (identities (filter (src_blocked URL pg ?bs) (concat (map scripts_in (document_children pg)))))
          (document_children pg)
        = document_without ?P (document_children pg)"
  proof (rule remove_nodes_without [where P = ?P, OF t])
    show "\<forall>c \<in> set (concat (map elements_of (document_children pg))).
        kept (identities (filter (src_blocked URL pg ?bs) (concat (map scripts_in (document_children pg))))) c
        = (\<not> (is_script c \<and> src_blocked URL pg ?bs c))"
      using kept_blocked_scripts [OF assms, where B = "src_blocked URL pg ?bs"] by blast
  qed
  then show ?thesis by (simp add: probe_def Let_def)
qed


text \<open>What leaves a tree was in it; a tree that holds none of the doomed identities is
  left as it is; and an element that is appended and then removed leaves the tree as
  it was.\<close>

lemma ids_without: "set (ids_of (without P n)) \<subseteq> set (ids_of n)"
  by (induction P n rule: without.induct) auto

lemma ids_document_without:
  "set (concat (map ids_of (document_without P ns))) \<subseteq> set (concat (map ids_of ns))"
  using ids_without by (fastforce simp add: document_without_def)

lemma kept_fresh: "set D \<inter> set (ids_of c) = {} \<Longrightarrow> kept D c"
  by (cases c) (auto simp add: kept_def)

lemma kept_append_under: "kept D (append_under p n c) = kept D c"
  by (cases c) (simp_all add: kept_def)

lemma detach_fresh: "set D \<inter> set (ids_of d) = {} \<Longrightarrow> detach D d = d"
proof (induction d rule: ids_of.induct)
  case (1 i t s cs)
  have c: "set D \<inter> set (ids_of c) = {}" if "c \<in> set cs" for c
    using "1.prems" that by auto
  then have "filter (kept D) cs = cs"
    by (simp add: kept_fresh)
  moreover have "map (detach D) cs = cs"
    using "1.IH" c by (intro map_idI) simp
  ultimately show ?case by simp
next
  case (2 x)
  then show ?case by simp
qed

lemma detach_appended:
  "\<not> kept D n \<Longrightarrow> set D \<inter> set (ids_of d) = {} \<Longrightarrow> detach D (append_under p n d) = d"
proof (induction d rule: ids_of.induct)
  case (1 i t s cs)
  have c: "set D \<inter> set (ids_of c) = {}" if "c \<in> set cs" for c
    using "1.prems" that by auto
  have f: "filter (kept D) (map (append_under p n) cs) = map (append_under p n) cs"
    using c by (simp add: kept_append_under kept_fresh)
  have g: "filter (kept D) (if i = p then [n] else []) = []"
    using "1.prems"(1) by simp
  have m: "map (detach D) (map (append_under p n) cs) = cs"
  proof -
    have "detach D (append_under p n c) = c" if "c \<in> set cs" for c
      using "1.IH" [OF that "1.prems"(1) c [OF that]] .
    then have "map (\<lambda>c. detach D (append_under p n c)) cs = cs"
      by (intro map_idI) simp
    then show ?thesis by (simp add: comp_def)
  qed
  have "detach D (append_under p n (Element i t s cs))
      = Element i t s (map (detach D)
          (filter (kept D) (map (append_under p n) cs) @ filter (kept D) (if i = p then [n] else [])))"
    by simp
  also have "\<dots> = Element i t s cs"
    unfolding f g using m by simp
  finally show ?case .
next
  case (2 x)
  then show ?case by simp
qed

lemma append_under_absent: "p \<notin> set (ids_of d) \<Longrightarrow> append_under p n d = d"
  by (induction d rule: ids_of.induct) (auto simp add: map_idI)

lemma remove_nodes_appended:
  assumes "\<not> kept D n" and "set D \<inter> set (concat (map ids_of ns)) = {}"
  shows "remove_nodes D (map (append_under p n) ns) = ns"
proof -
  have c: "set D \<inter> set (ids_of c) = {}" if "c \<in> set ns" for c
    using assms(2) that by auto
  have "filter (kept D) (map (append_under p n) ns) = map (append_under p n) ns"
    using c by (simp add: kept_append_under kept_fresh)
  moreover have "map (detach D) (map (append_under p n) ns) = ns"
    using detach_appended [OF assms(1) c] by (simp add: map_idI)
  ultimately show ?thesis by (simp add: remove_nodes_def)
qed

lemma remove_nodes_none: "remove_nodes [] ns = ns"
  by (simp add: remove_nodes_def kept_fresh detach_fresh map_idI)

text \<open>What a callback lists of a record that holds one node.\<close>

lemma observer_callback_one:
  "observer_callback URL pg bs [\<lparr>addedNodes = [n]\<rparr>]
   = (if is_script n \<and> src_blocked URL pg bs n then [n] else [])"
  by (cases n) (auto simp add: observer_callback_def is_script_def toLowerCase_def)

lemma src_blocked_location:
  "location_href pg' = location_href pg \<Longrightarrow> src_blocked URL pg' bs n = src_blocked URL pg bs n"
  by (cases n) (simp_all add: src_blocked_def abs_in_page_def)

lemma appendChild_blocked_script:
  assumes "is_script n" and "src_blocked URL pg bs n" and "bs \<in> set (observers pg)"
    and "set (identities [n]) \<inter> set (concat (map ids_of (document_children pg))) = {}"
  shows "appendChild URL p n pg = pg"
proof (cases "p \<in> set (concat (map ids_of (document_children pg)))")
  case False
  then show ?thesis by (simp add: appendChild_def)
next
  case True
  let ?q = "pg\<lparr>document_children := map (append_under p n) (document_children pg)\<rparr>"
  let ?D = "identities (concat (map (\<lambda>b. observer_callback URL ?q b [\<lparr>addedNodes = [n]\<rparr>]) (observers ?q)))"
  from assms(1) obtain i t s cs where n: "n = Element i t s cs"
    by (cases n) (auto simp add: is_script_def)
  have loc: "location_href ?q = location_href pg" by simp
  have sub: "set ?D \<subseteq> {i}"
    by (auto simp add: identities_set observer_callback_one n split: if_splits)
  have "n \<in> set (observer_callback URL ?q bs [\<lparr>addedNodes = [n]\<rparr>])"
    using assms(1,2) by (simp add: observer_callback_one src_blocked_location [OF loc])
  then have "n \<in> set (concat (map (\<lambda>b. observer_callback URL ?q b [\<lparr>addedNodes = [n]\<rparr>]) (observers ?q)))"
    using assms(3) by auto
  then have "i \<in> set ?D"
    unfolding identities_set n by blast
  with sub have D: "set ?D = {i}" by auto
  have nk: "\<not> kept ?D n" using D by (simp add: kept_def n)
  have fr: "set ?D \<inter> set (concat (map ids_of (document_children pg))) = {}"
    using assms(4) D by (simp add: identities_def n)
  have "remove_nodes ?D (map (append_under p n) (document_children pg)) = document_children pg"
    by (rule remove_nodes_appended [OF nk fr])
  then show ?thesis
    using True by (simp add: appendChild_def deliver_def)
qed

lemma appendChild_nothing_blocked:
  assumes "\<forall>b \<in> set (observers pg). \<forall>s \<in> set (scripts_in n). \<not> src_blocked URL pg b s"
  shows "appendChild URL p n pg
         = pg\<lparr>document_children := map (append_under p n) (document_children pg)\<rparr>"
proof (cases "p \<in> set (concat (map ids_of (document_children pg)))")
  case False
  then have "map (append_under p n) (document_children pg) = document_children pg"
    by (auto simp add: append_under_absent map_idI)
  with False show ?thesis by (simp add: appendChild_def)
next
  case True
  let ?q = "pg\<lparr>document_children := map (append_under p n) (document_children pg)\<rparr>"
  have loc: "location_href ?q = location_href pg" by simp
  have "observer_callback URL ?q b [\<lparr>addedNodes = [n]\<rparr>] = []" if "b \<in> set (observers pg)" for b
  proof -
    have "\<not> (is_script n \<and> src_blocked URL pg b n)"
    proof
      assume h: "is_script n \<and> src_blocked URL pg b n"
      then have "n \<in> set (scripts_in n)"
        by (cases n) (auto simp add: is_script_def)
      with assms that h show False by blast
    qed
    then show ?thesis
      by (simp add: observer_callback_one src_blocked_location [OF loc])
  qed
  then have "concat (map (\<lambda>b. observer_callback URL ?q b [\<lparr>addedNodes = [n]\<rparr>]) (observers ?q)) = []"
    by simp
  then have "identities (concat (map (\<lambda>b. observer_callback URL ?q b [\<lparr>addedNodes = [n]\<rparr>]) (observers ?q))) = []"
    by (simp add: identities_def)
  then have "deliver URL [\<lparr>addedNodes = [n]\<rparr>] ?q = ?q"
    by (simp add: deliver_def remove_nodes_none)
  then show ?thesis
    using True by (simp add: appendChild_def)
qed


lemma probe_fields:
  "location_href (probe URL us pg) = location_href pg"
  "observers (probe URL us pg) = observers pg @ [map (abs_in_page URL pg) us]"
  by (simp_all add: probe_def Let_def)

lemma page0_distinct: "distinct (concat (map ids_of (document_children page0)))"
  by (simp add: page0_def)

lemma page0_scripts:
  "concat (map scripts_in (document_children page0))
   = [Element 3 ''SCRIPT'' ''https://cdn.a/x.js'' [], Element 4 ''SCRIPT'' ''https://cdn.b/y.js'' [],
      Element 6 ''SCRIPT'' [] [TextNode ''inline'']]"
  by (simp add: page0_def lower_tags)

lemma page0_without:
  "document_without
     (\<lambda>c. is_script c \<and> src_blocked URL_sample page0 [''https://cdn.a/x.js''] c)
     (document_children page0)
   = [Element 1 ''HTML'' []
        [Element 2 ''HEAD'' [] [Element 4 ''SCRIPT'' ''https://cdn.b/y.js'' []],
         Element 5 ''BODY'' [] [TextNode ''hi'', Element 6 ''SCRIPT'' [] [TextNode ''inline'']]]]"
  by (simp add: document_without_def page0_def is_script_def lower_tags src_blocked_def
      abs_in_page_def URL_sample_def)

text \<open>
  C1 (as amended). For a tab id that is not falsy and a non-empty list of blocked
  URLs, when the host has a page for the tab that the probe may enter,
  \<^verbatim>\<open>removeScriptsInTab\<close> makes one \<^verbatim>\<open>executeScript\<close> call and changes nothing but
  that page, on which the probe runs. The probe takes out of the document exactly the
  script elements whose \<^verbatim>\<open>src\<close> is not empty and, resolved against the page location,
  is among the blocked URLs resolved in the same way (each leaves with what it
  contains; every other node stays where it was), and it installs one more observer,
  with that set. From then on a script element with such a \<^verbatim>\<open>src\<close> that a script of
  the page appends to an element of the document is removed again, and the page is as
  it was before; a node that holds no script element blocked by an observer of the page
  stays where it was appended. (The elements of the document have distinct identities,
  and the appended script is not one of them.)
\<close>

theorem removeScriptsInTab_probe:
  assumes "\<not> falsy_id (Some t)" and "us \<noteq> []" and "pages w t = Some pg"
    and "distinct (concat (map ids_of (document_children pg)))"
    and "is_script n" and "src_blocked URL pg (map (abs_in_page URL pg) us) n"
    and "set (identities [n]) \<inter> set (concat (map ids_of (document_children pg))) = {}"
    and "\<forall>b \<in> set (observers pg @ [map (abs_in_page URL pg) us]).
           \<forall>s \<in> set (scripts_in n'). \<not> src_blocked URL pg b s"
  shows "removeScriptsInTab URL (Some t) (Some us) w
           = (emit (ExecuteScript (Some t)) w)\<lparr>pages := (pages w)(t \<mapsto> probe URL us pg)\<rparr>
       \<and> probe URL us pg
           = pg\<lparr>document_children :=
                  document_without
                    (\<lambda>c. is_script c \<and> src_blocked URL pg (map (abs_in_page URL pg) us) c)
                    (document_children pg),
                observers := observers pg @ [map (abs_in_page URL pg) us]\<rparr>
       \<and> appendChild URL p n (probe URL us pg) = probe URL us pg
       \<and> appendChild URL p' n' (probe URL us pg)
           = (probe URL us pg)\<lparr>document_children :=
                map (append_under p' n') (document_children (probe URL us pg))\<rparr>"
proof -
  let ?bs = "map (abs_in_page URL pg) us"
  let ?pg' = "probe URL us pg"
  have a: "removeScriptsInTab URL (Some t) (Some us) w
           = (emit (ExecuteScript (Some t)) w)\<lparr>pages := (pages w)(t \<mapsto> ?pg')\<rparr>"
    using assms(1,2,3) by (simp add: removeScriptsInTab_def emit_def Let_def)
  have b: "?pg' = pg\<lparr>document_children :=
                  document_without (\<lambda>c. is_script c \<and> src_blocked URL pg ?bs c) (document_children pg),
                observers := observers pg @ [?bs]\<rparr>"
    by (rule probe_without [OF assms(4)])
  have loc: "location_href ?pg' = location_href pg"
    by (rule probe_fields)
  have fresh: "set (identities [n]) \<inter> set (concat (map ids_of (document_children ?pg'))) = {}"
  proof -
    have dc: "document_children ?pg'
        = document_without (\<lambda>c. is_script c \<and> src_blocked URL pg ?bs c) (document_children pg)"
      by (subst b) simp
    have "set (concat (map ids_of (document_children ?pg'))) \<subseteq> set (concat (map ids_of (document_children pg)))"
      unfolding dc by (rule ids_document_without)
    with assms(7) show ?thesis by blast
  qed
  have c: "appendChild URL p n ?pg' = ?pg'"
  proof (rule appendChild_blocked_script [where bs = ?bs])
    show "is_script n" by (rule assms(5))
    show "src_blocked URL ?pg' ?bs n"
      using assms(6) by (simp add: src_blocked_location [OF loc])
    show "?bs \<in> set (observers ?pg')" by (simp add: probe_fields)
    show "set (identities [n]) \<inter> set (concat (map ids_of (document_children ?pg'))) = {}"
      by (rule fresh)
  qed
  have d: "appendChild URL p' n' ?pg'
           = ?pg'\<lparr>document_children := map (append_under p' n') (document_children ?pg')\<rparr>"
  proof (rule appendChild_nothing_blocked)
    show "\<forall>b \<in> set (observers ?pg'). \<forall>s \<in> set (scripts_in n'). \<not> src_blocked URL ?pg' b s"
      using assms(8) by (simp add: probe_fields src_blocked_location [OF loc])
  qed
  from a b c d show ?thesis by blast
qed

theorem removeScriptsInTab_probe_witness:
  "removeScriptsInTab URL_sample (Some 7) (Some [''https://cdn.a/x.js'']) world0
     = (emit (ExecuteScript (Some 7)) world0)
         \<lparr>pages := (pages world0)(7 \<mapsto> probe URL_sample [''https://cdn.a/x.js''] page0)\<rparr>
   \<and> probe URL_sample [''https://cdn.a/x.js''] page0
     = \<lparr>location_href = ''https://example.com/page'',
        document_children =
          [Element 1 ''HTML'' []
             [Element 2 ''HEAD'' [] [Element 4 ''SCRIPT'' ''https://cdn.b/y.js'' []],
              Element 5 ''BODY'' [] [TextNode ''hi'', Element 6 ''SCRIPT'' [] [TextNode ''inline'']]]],
        observers = [[''https://cdn.a/x.js'']]\<rparr>
   \<and> appendChild URL_sample 5 (Element 9 ''SCRIPT'' ''https://cdn.a/x.js'' [])
        (probe URL_sample [''https://cdn.a/x.js''] page0)
     = probe URL_sample [''https://cdn.a/x.js''] page0
   \<and> document_children
        (appendChild URL_sample 5 (Element 10 ''DIV'' [] [TextNode ''a''])
           (probe URL_sample [''https://cdn.a/x.js''] page0))
     = [Element 1 ''HTML'' []
          [Element 2 ''HEAD'' [] [Element 4 ''SCRIPT'' ''https://cdn.b/y.js'' []],
           Element 5 ''BODY'' []
             [TextNode ''hi'', Element 6 ''SCRIPT'' [] [TextNode ''inline''],
              Element 10 ''DIV'' [] [TextNode ''a'']]]]"
proof -
  have bs: "map (abs_in_page URL_sample page0) [''https://cdn.a/x.js''] = [''https://cdn.a/x.js'']"
    by (simp add: abs_in_page_def URL_sample_def)
  have a: "\<not> falsy_id (Some 7)" by (simp add: falsy_id_def)
  have b: "[''https://cdn.a/x.js''] \<noteq> []" by simp
  have c: "pages world0 7 = Some page0" by (simp add: world0_def)
  have e: "is_script (Element 9 ''SCRIPT'' ''https://cdn.a/x.js'' [])"
    by (simp add: is_script_def lower_tags)
  have f: "src_blocked URL_sample page0 (map (abs_in_page URL_sample page0) [''https://cdn.a/x.js''])
        (Element 9 ''SCRIPT'' ''https://cdn.a/x.js'' [])"
    by (simp add: src_blocked_def abs_in_page_def URL_sample_def)
  have g: "set (identities [Element 9 ''SCRIPT'' ''https://cdn.a/x.js'' []])
        \<inter> set (concat (map ids_of (document_children page0))) = {}"
    by (simp add: identities_def page0_def)
  have h: "\<forall>b \<in> set (observers page0 @ [map (abs_in_page URL_sample page0) [''https://cdn.a/x.js'']]).
        \<forall>s \<in> set (scripts_in (Element 10 ''DIV'' [] [TextNode ''a''])). \<not> src_blocked URL_sample page0 b s"
    by (simp add: lower_tags)
  have fields: "location_href page0 = ''https://example.com/page''" "observers page0 = []"
    by (simp_all add: page0_def)
  note inst = removeScriptsInTab_probe [OF a b c page0_distinct e f g h, of 5 5]
  have p0: "probe URL_sample [''https://cdn.a/x.js''] page0
     = page0\<lparr>document_children :=
          [Element 1 ''HTML'' []
             [Element 2 ''HEAD'' [] [Element 4 ''SCRIPT'' ''https://cdn.b/y.js'' []],
              Element 5 ''BODY'' [] [TextNode ''hi'', Element 6 ''SCRIPT'' [] [TextNode ''inline'']]]],
        observers := [] @ [[''https://cdn.a/x.js'']]\<rparr>"
    using inst [THEN conjunct2, THEN conjunct1] unfolding bs page0_without fields .
  have p: "probe URL_sample [''https://cdn.a/x.js''] page0
     = \<lparr>location_href = ''https://example.com/page'',
        document_children =
          [Element 1 ''HTML'' []
             [Element 2 ''HEAD'' [] [Element 4 ''SCRIPT'' ''https://cdn.b/y.js'' []],
              Element 5 ''BODY'' [] [TextNode ''hi'', Element 6 ''SCRIPT'' [] [TextNode ''inline'']]]],
        observers = [[''https://cdn.a/x.js'']]\<rparr>"
    unfolding p0 by (simp add: page0_def)
  have q: "document_children
        (appendChild URL_sample 5 (Element 10 ''DIV'' [] [TextNode ''a''])
           (probe URL_sample [''https://cdn.a/x.js''] page0))
     = map (append_under 5 (Element 10 ''DIV'' [] [TextNode ''a'']))
         (document_children (probe URL_sample [''https://cdn.a/x.js''] page0))"
    using inst [THEN conjunct2, THEN conjunct2, THEN conjunct2] by simp
  have r: "map (append_under 5 (Element 10 ''DIV'' [] [TextNode ''a'']))
         (document_children (probe URL_sample [''https://cdn.a/x.js''] page0))
     = [Element 1 ''HTML'' []
          [Element 2 ''HEAD'' [] [Element 4 ''SCRIPT'' ''https://cdn.b/y.js'' []],
           Element 5 ''BODY'' []
             [TextNode ''hi'', Element 6 ''SCRIPT'' [] [TextNode ''inline''],
              Element 10 ''DIV'' [] [TextNode ''a'']]]]"
    by (simp add: p)
  from inst [THEN conjunct1] p inst [THEN conjunct2, THEN conjunct2, THEN conjunct1] q r
  show ?thesis by simp
qed

text \<open>
  C1 as stated fails in three ways. For the tab id 0 the guard returns before any
  injection: the state is unchanged, so the script whose resolved \<^verbatim>\<open>src\<close> is in the
  blocked set stays in the page and no observer is installed. For the blocked list
  \<^verbatim>\<open>["/app.js"]\<close> the probe resolves the list too and removes the script at
  \<^verbatim>\<open>https://example.com/app.js\<close>, whose resolved \<^verbatim>\<open>src\<close> is not equal to any string of
  the list. And with the URL of the page itself in the list, the inline script, whose
  empty \<^verbatim>\<open>src\<close> resolves to that URL, is left in the document: the probe skips a
  script with an empty \<^verbatim>\<open>src\<close>.
\<close>

theorem removeScriptsInTab_counterexample:
  "pages world0 0 = Some page0
   \<and> Element 3 ''SCRIPT'' ''https://cdn.a/x.js'' []
       \<in> set (concat (map scripts_in (document_children page0)))
   \<and> src_blocked URL_sample page0 (map (abs_in_page URL_sample page0) [''https://cdn.a/x.js''])
        (Element 3 ''SCRIPT'' ''https://cdn.a/x.js'' [])
   \<and> removeScriptsInTab URL_sample (Some 0) (Some [''https://cdn.a/x.js'']) world0 = world0
   \<and> document_children page1
       = [Element 1 ''HTML'' [] [Element 2 ''SCRIPT'' ''https://example.com/app.js'' []]]
   \<and> abs_in_page URL_sample page1 ''https://example.com/app.js'' \<notin> set [''/app.js'']
   \<and> document_children (probe URL_sample [''/app.js''] page1) = [Element 1 ''HTML'' [] []]
   \<and> Element 6 ''SCRIPT'' [] [TextNode ''inline'']
       \<in> set (concat (map scripts_in (document_children page0)))
   \<and> abs_in_page URL_sample page0 [] \<in> set [''https://example.com/page'']
   \<and> document_children (probe URL_sample [''https://example.com/page''] page0)
       = document_children page0"
proof -
  have a: "pages world0 0 = Some page0" by (simp add: world0_def)
  have b: "src_blocked URL_sample page0 (map (abs_in_page URL_sample page0) [''https://cdn.a/x.js''])
        (Element 3 ''SCRIPT'' ''https://cdn.a/x.js'' [])"
    by (simp add: src_blocked_def abs_in_page_def URL_sample_def)
  have c: "removeScriptsInTab URL_sample (Some 0) (Some [''https://cdn.a/x.js'']) world0 = world0"
    by (simp add: removeScriptsInTab_def falsy_id_def)
  have d: "document_children page1
       = [Element 1 ''HTML'' [] [Element 2 ''SCRIPT'' ''https://example.com/app.js'' []]]"
    by (simp add: page1_def)
  have e: "abs_in_page URL_sample page1 ''https://example.com/app.js'' \<notin> set [''/app.js'']"
    by (simp add: abs_in_page_def URL_sample_def)
  have l: "location_href page1 = ''https://example.com/page''" by (simp add: page1_def)
  have f: "document_children (probe URL_sample [''/app.js''] page1) = [Element 1 ''HTML'' [] []]"
    by (simp add: probe_def Let_def d lower_tags src_blocked_def abs_in_page_def l URL_sample_def
        identities_def remove_nodes_def kept_def)
  have l0: "location_href page0 = ''https://example.com/page''" by (simp add: page0_def)
  have g: "abs_in_page URL_sample page0 [] \<in> set [''https://example.com/page'']"
    by (simp add: abs_in_page_def l0 URL_sample_def)
  have h: "document_children (probe URL_sample [''https://example.com/page''] page0)
       = document_children page0"
    by (simp add: probe_def Let_def page0_scripts src_blocked_def abs_in_page_def l0 URL_sample_def
        identities_def remove_nodes_none)
  from a b c d e f g h show ?thesis by (simp add: page0_scripts)
qed

section \<open>Properties of the store\<close>

lemma storageKey_7: "storageKey 7 = ''blocked_7''"
  by code_simp

lemma area_emit: "area_in_use (emit a w) = area_in_use w"
  by (simp add: emit_def area_in_use_def split: option.splits)

lemma area_removeScriptsInTab: "area_in_use (removeScriptsInTab URL tabId urls w) = area_in_use w"
  by (simp add: removeScriptsInTab_def area_in_use_def emit_def Let_def split: option.splits)

lemma area_storageSet: "area_in_use (storageSet True key v w) = (area_in_use w)(key \<mapsto> v)"
  by (simp add: storageSet_def emit_def area_in_use_def split: option.splits)

lemma getBlockedMap_area:
  "fst (getBlockedMap True w)
   = (case area_in_use w STORAGE_KEY of Some (ObjV m) \<Rightarrow> m | _ \<Rightarrow> Map.empty)"
  by (simp add: getBlockedMap_def storageGet_def)

lemma getBlockedMap_world: "snd (getBlockedMap ok w) = emit (StorageGet STORAGE_KEY) w"
  by (simp add: getBlockedMap_def storageGet_def split_beta Let_def)

lemma getBlockedMap_emit: "fst (getBlockedMap ok (emit a w)) = fst (getBlockedMap ok w)"
  by (simp add: getBlockedMap_def storageGet_def area_emit Let_def)

lemma stored_after_update:
  "area_in_use (snd (updateBlockedEntry (g, True) u b w))
   = (area_in_use w)(STORAGE_KEY \<mapsto>
        ObjV (if b then assign_true (fst (getBlockedMap g w)) u else (fst (getBlockedMap g w))(u := None)))"
  by (simp add: updateBlockedEntry_def setBlockedMap_def split_beta Let_def area_storageSet
      getBlockedMap_world area_emit)

lemma updateBlockedEntry_result:
  "fst (updateBlockedEntry (g, s) u b w)
   = (if b then assign_true (fst (getBlockedMap g w)) u else (fst (getBlockedMap g w))(u := None))"
  by (simp add: updateBlockedEntry_def split_beta Let_def)

lemma ran_assign_true: "ran m \<subseteq> {True} \<Longrightarrow> ran (assign_true m k) \<subseteq> {True}"
  by (auto simp add: assign_true_def ran_def)

lemma ran_delete: "ran m \<subseteq> {True} \<Longrightarrow> ran (m(k := None)) \<subseteq> {True}"
  by (auto simp add: ran_def split: if_splits)

lemma toAbsolute_cases:
  "toAbsolute URL raw base = (case URL raw base of Some href \<Rightarrow> href | None \<Rightarrow> raw)"
  by (simp add: toAbsolute_def split: option.splits)

text \<open>What a change of a checkbox does to the store, when the storage calls succeed.\<close>

lemma onCheckboxChange_area:
  assumes "input_type t = ''checkbox''" and "closest_li t = Some li"
    and "get_ok h" and "set_ok h"
    and "raw = (case title_attr li of Some x \<Rightarrow> x | None \<Rightarrow> [])"
    and "key = (case URL raw (base_of h) of Some href \<Rightarrow> href | None \<Rightarrow> raw)"
  shows "area_in_use (snd (onCheckboxChange URL h (Some t) w))
         = (if (raw = [] \<and> src_text li \<noteq> None) \<or> key = [] then area_in_use w
            else (area_in_use w)(STORAGE_KEY \<mapsto>
                   ObjV (if checked t then assign_true (fst (getBlockedMap True w)) key
                         else (fst (getBlockedMap True w))(key := None))))"
proof (cases "raw = [] \<and> src_text li \<noteq> None")
  case True
  then show ?thesis
    using assms by (auto simp add: onCheckboxChange_def getUrlFromCheckbox_def Let_def)
next
  case False
  then have u: "getUrlFromCheckbox URL h (Some t) w = (Inr key, emit TabsQuery w)"
    using assms by (auto simp add: getUrlFromCheckbox_def Let_def toAbsolute_cases)
  show ?thesis
  proof (cases "key = []")
    case True
    then show ?thesis
      using assms(1) u by (simp add: onCheckboxChange_def area_emit)
  next
    case k: False
    have "area_in_use (snd (onCheckboxChange URL h (Some t) w))
        = area_in_use (snd (updateBlockedEntry (True, True) key (checked t) (emit TabsQuery w)))"
      using assms(1,3,4) u k
      by (simp add: onCheckboxChange_def split_beta Let_def area_emit area_removeScriptsInTab
          split: list.splits)
    then show ?thesis
      using False k by (auto simp add: stored_after_update area_emit getBlockedMap_emit)
  qed
qed


lemma onCheckboxChange_map:
  assumes "input_type t = ''checkbox''" and "closest_li t = Some li"
    and "get_ok h" and "set_ok h"
    and "raw = (case title_attr li of Some x \<Rightarrow> x | None \<Rightarrow> [])"
    and "key = (case URL raw (base_of h) of Some href \<Rightarrow> href | None \<Rightarrow> raw)"
  shows "fst (getBlockedMap True (snd (onCheckboxChange URL h (Some t) w)))
         = (if (raw = [] \<and> src_text li \<noteq> None) \<or> key = [] then fst (getBlockedMap True w)
            else if checked t then assign_true (fst (getBlockedMap True w)) key
            else (fst (getBlockedMap True w))(key := None))"
proof -
  note a = onCheckboxChange_area [where URL = URL and raw = raw and key = key and h = h and t = t
      and li = li and w = w, OF assms]
  show ?thesis
  proof (cases "(raw = [] \<and> src_text li \<noteq> None) \<or> key = []")
    case True
    have "area_in_use (snd (onCheckboxChange URL h (Some t) w)) = area_in_use w"
      by (simp only: a if_P [OF True])
    then have "fst (getBlockedMap True (snd (onCheckboxChange URL h (Some t) w)))
        = fst (getBlockedMap True w)"
      by (simp only: getBlockedMap_area)
    then show ?thesis by (simp only: if_P [OF True])
  next
    case False
    have "area_in_use (snd (onCheckboxChange URL h (Some t) w))
        = (area_in_use w)(STORAGE_KEY \<mapsto>
             ObjV (if checked t then assign_true (fst (getBlockedMap True w)) key
                   else (fst (getBlockedMap True w))(key := None)))"
      by (simp only: a if_not_P [OF False])
    then have "fst (getBlockedMap True (snd (onCheckboxChange URL h (Some t) w)))
        = (if checked t then assign_true (fst (getBlockedMap True w)) key
           else (fst (getBlockedMap True w))(key := None))"
      by (simp add: getBlockedMap_area [of "snd (onCheckboxChange URL h (Some t) w)"])
    then show ?thesis by (simp only: if_not_P [OF False])
  qed
qed

lemma init_result:
  "fst (init URL h (Some inputs) w)
   = Some (map (reconcile URL (base_of h) (fst (getBlockedMap (get_ok h) w))) inputs)"
  by (simp add: init_def split_beta Let_def getBlockedMap_emit)

lemma reconcile_key:
  "reconcile URL base blocked inp
   = (if (case URL (raw_of inp) base of Some href \<Rightarrow> href | None \<Rightarrow> raw_of inp) \<noteq> []
         \<and> truthy_at blocked (case URL (raw_of inp) base of Some href \<Rightarrow> href | None \<Rightarrow> raw_of inp)
      then inp\<lparr>checked := True\<rparr> else inp)"
  by (simp add: reconcile_def Let_def toAbsolute_cases)

lemma truthy_assigned: "truthy_at (assign_true m k) k"
  by (cases "k = ''__proto__'' \<and> m k = None")
    (auto simp add: assign_true_def truthy_at_def Object_prototype_names_def)

lemma base_host0: "base_of host0 = ''https://example.com/page''"
  by (simp add: base_of_def host0_def)

lemma blocked_world0: "fst (getBlockedMap True world0) = Map.empty(''https://cdn.b/y.js'' \<mapsto> True)"
  by (simp add: getBlockedMap_area area_in_use_def world0_def)

lemma checkbox_of_fields:
  "input_type (checkbox_of title c) = ''checkbox''"
  "closest_li (checkbox_of title c) = Some \<lparr>title_attr = Some title, src_text = None\<rparr>"
  "checked (checkbox_of title c) = c"
  "(checkbox_of title c)\<lparr>checked := c'\<rparr> = checkbox_of title c'"
  "raw_of (checkbox_of title c) = title"
  by (simp_all add: checkbox_of_def raw_of_def)

lemma host0_ok: "get_ok host0" "set_ok host0"
  by (simp_all add: host0_def)

lemma restore_fresh_rows:
  assumes "local_area w key = Some (ArrV blocked)" and "script_list w = Some (map row_v3 scripts)"
  shows "script_list (restore_callback True key w)
         = Some (map (\<lambda>u. LiEntry u (if last_segment u \<noteq> [] then last_segment u else u)
                          (u \<noteq> [] \<and> u \<in> set blocked)) scripts)"
  using assms
  by (simp add: restore_callback_def emit_def restore_row_def row_v3_def comp_def)

section \<open>Properties of the persisted state\<close>

text \<open>
  C2 (as amended). Under the global key \<^verbatim>\<open>blocked_scripts\<close> the value that the
  blocking module writes is an object, the map that \<^verbatim>\<open>updateBlockedEntry\<close> returns,
  and it holds only \<^verbatim>\<open>true\<close> when the map read from the store did: a key other than
  the names that every object inherits reads as blocked exactly when it is present.
  The key that the change of a checkbox writes or deletes is the \<^verbatim>\<open>href\<close> that the
  \<^verbatim>\<open>URL\<close> constructor returns for the title of the row, and the title itself when the
  constructor throws.
  Under the per-tab key \<^verbatim>\<open>blocked_<tabId>\<close> the value that the save handler writes is
  an array: the titles of the checked rows. When the popup is opened again and has
  rendered its rows, the restore callback checks exactly the rows whose URL is in the
  array.
\<close>

theorem stored_values:
  assumes "ran (fst (getBlockedMap g w)) \<subseteq> {True}" and "script_list w = Some rows"
    and "input_type t = ''checkbox''" and "closest_li t = Some li"
    and "get_ok h" and "set_ok h"
    and "raw = (case title_attr li of Some x \<Rightarrow> x | None \<Rightarrow> [])"
    and "key = (case URL raw (base_of h) of Some href \<Rightarrow> href | None \<Rightarrow> raw)"
    and "\<not> (raw = [] \<and> src_text li \<noteq> None)" and "key \<noteq> []"
  shows "area_in_use (snd (updateBlockedEntry (g, True) u b w)) STORAGE_KEY
           = Some (ObjV (fst (updateBlockedEntry (g, True) u b w)))
       \<and> ran (fst (updateBlockedEntry (g, True) u b w)) \<subseteq> {True}
       \<and> (k \<notin> set Object_prototype_names \<longrightarrow>
            truthy_at (fst (updateBlockedEntry (g, True) u b w)) k
              = (fst (updateBlockedEntry (g, True) u b w) k \<noteq> None))
       \<and> area_in_use (snd (onCheckboxChange URL h (Some t) w)) STORAGE_KEY
           = Some (ObjV (if checked t then assign_true (fst (getBlockedMap True w)) key
                         else (fst (getBlockedMap True w))(key := None)))
       \<and> local_area (save_click i True w) (storageKey i) = Some (ArrV (checked_titles rows))
       \<and> script_list (restore_callback True (storageKey i)
            ((save_click i True w)\<lparr>script_list := Some (map row_v3 scripts)\<rparr>))
           = Some (map (\<lambda>u. LiEntry u (if last_segment u \<noteq> [] then last_segment u else u)
                            (u \<noteq> [] \<and> u \<in> set (checked_titles rows))) scripts)"
proof -
  have a: "area_in_use (snd (updateBlockedEntry (g, True) u b w)) STORAGE_KEY
           = Some (ObjV (fst (updateBlockedEntry (g, True) u b w)))"
    by (simp add: stored_after_update updateBlockedEntry_result)
  have b: "ran (fst (updateBlockedEntry (g, True) u b w)) \<subseteq> {True}"
    using assms(1) by (simp add: updateBlockedEntry_result ran_assign_true ran_delete)
  have p: "truthy_at (fst (updateBlockedEntry (g, True) u b w)) k
              = (fst (updateBlockedEntry (g, True) u b w) k \<noteq> None)"
    if "k \<notin> set Object_prototype_names"
  proof (cases "fst (updateBlockedEntry (g, True) u b w) k")
    case None
    with that show ?thesis by (simp add: truthy_at_def)
  next
    case (Some v)
    then have "v \<in> ran (fst (updateBlockedEntry (g, True) u b w))"
      by (auto simp add: ran_def)
    with b have "v = True" by blast
    with Some show ?thesis by (simp add: truthy_at_def)
  qed
  have n: "\<not> ((raw = [] \<and> src_text li \<noteq> None) \<or> key = [])"
    using assms(9,10) by blast
  have c: "area_in_use (snd (onCheckboxChange URL h (Some t) w)) STORAGE_KEY
           = Some (ObjV (if checked t then assign_true (fst (getBlockedMap True w)) key
                         else (fst (getBlockedMap True w))(key := None)))"
    by (simp only: onCheckboxChange_area [where URL = URL and raw = raw and key = key and h = h
          and t = t and li = li and w = w, OF assms(3-8)] if_not_P [OF n]) simp
  have d: "local_area (save_click i True w) (storageKey i) = Some (ArrV (checked_titles rows))"
    using assms(2) by (simp add: save_click_def emit_def Let_def)
  have e: "script_list (restore_callback True (storageKey i)
            ((save_click i True w)\<lparr>script_list := Some (map row_v3 scripts)\<rparr>))
           = Some (map (\<lambda>u. LiEntry u (if last_segment u \<noteq> [] then last_segment u else u)
                            (u \<noteq> [] \<and> u \<in> set (checked_titles rows))) scripts)"
    by (rule restore_fresh_rows) (simp_all add: d)
  from a b p c d e show ?thesis by blast
qed

theorem stored_values_witness:
  "area_in_use (snd (updateBlockedEntry (True, True) ''https://cdn.a/x.js'' True world1)) STORAGE_KEY
       = Some (ObjV (Map.empty(''https://cdn.b/y.js'' \<mapsto> True, ''https://cdn.a/x.js'' \<mapsto> True)))
   \<and> truthy_at (fst (updateBlockedEntry (True, True) ''https://cdn.a/x.js'' True world1))
        ''https://cdn.a/x.js''
   \<and> area_in_use (snd (onCheckboxChange URL_sample host0 (Some (checkbox_of ''/app.js'' True)) world1))
        STORAGE_KEY
       = Some (ObjV (Map.empty(''https://cdn.b/y.js'' \<mapsto> True, ''https://example.com/app.js'' \<mapsto> True)))
   \<and> local_area (save_click 7 True world1) ''blocked_7'' = Some (ArrV [''https://cdn.a/x.js''])
   \<and> script_list (restore_callback True ''blocked_7''
        ((save_click 7 True world1)
           \<lparr>script_list := Some (map row_v3 [''https://cdn.a/x.js'', ''https://cdn.b/y.js''])\<rparr>))
       = Some [LiEntry ''https://cdn.a/x.js'' ''x.js'' True, LiEntry ''https://cdn.b/y.js'' ''y.js'' False]"
proof -
  have g: "fst (getBlockedMap True world1) = Map.empty(''https://cdn.b/y.js'' \<mapsto> True)"
    by (simp add: getBlockedMap_area area_in_use_def world1_def world0_def)
  have a: "ran (fst (getBlockedMap True world1)) \<subseteq> {True}"
    by (simp add: g)
  have b: "script_list world1
      = Some [LiEntry ''https://cdn.a/x.js'' ''x.js'' True, LiEntry ''https://cdn.b/y.js'' ''y.js'' False]"
    by (simp add: world1_def)
  have c: "checked_titles [LiEntry ''https://cdn.a/x.js'' ''x.js'' True, LiEntry ''https://cdn.b/y.js'' ''y.js'' False]
      = [''https://cdn.a/x.js'']"
    by (simp add: checked_titles_def)
  have r: "''/app.js'' = (case title_attr \<lparr>title_attr = Some ''/app.js'', src_text = None\<rparr> of
             Some x \<Rightarrow> x | None \<Rightarrow> [])"
    by simp
  have k: "''https://example.com/app.js''
      = (case URL_sample ''/app.js'' (base_of host0) of Some href \<Rightarrow> href | None \<Rightarrow> ''/app.js'')"
    by (simp add: URL_sample_def base_host0)
  have n: "\<not> (''/app.js'' = [] \<and> src_text \<lparr>title_attr = Some ''/app.js'', src_text = None\<rparr> \<noteq> None)"
    and k0: "''https://example.com/app.js'' \<noteq> []"
    by simp_all
  note inst = stored_values [where g = True and w = world1 and URL = URL_sample and h = host0
      and t = "checkbox_of ''/app.js'' True" and raw = "''/app.js''"
      and key = "''https://example.com/app.js''" and u = "''https://cdn.a/x.js''" and b = True
      and k = "''https://cdn.a/x.js''" and i = 7 and scripts = "[''https://cdn.a/x.js'', ''https://cdn.b/y.js'']",
      OF a b checkbox_of_fields(1,2) host0_ok r k n k0]
  have d: "fst (updateBlockedEntry (True, True) ''https://cdn.a/x.js'' True world1)
      = Map.empty(''https://cdn.b/y.js'' \<mapsto> True, ''https://cdn.a/x.js'' \<mapsto> True)"
    by (simp add: updateBlockedEntry_result g assign_true_def)
  have e: "assign_true (Map.empty(''https://cdn.b/y.js'' \<mapsto> True)) ''https://example.com/app.js''
      = Map.empty(''https://cdn.b/y.js'' \<mapsto> True, ''https://example.com/app.js'' \<mapsto> True)"
    by (simp add: assign_true_def)
  have l: "last_segment ''https://cdn.a/x.js'' = ''x.js''" "last_segment ''https://cdn.b/y.js'' = ''y.js''"
    by (simp_all add: last_segment_def)
  have q: "''https://cdn.a/x.js'' \<notin> set Object_prototype_names"
    by (simp add: Object_prototype_names_def)
  from inst q show ?thesis
    by (simp add: c d e g l storageKey_7 checkbox_of_fields)
qed

text \<open>
  C2 as stated fails in two ways. Under the per-tab scheme, with the first of two rows
  checked, the save handler of tab 7 stores the array of one title under
  \<^verbatim>\<open>blocked_7\<close>, not an object that maps URLs to \<^verbatim>\<open>true\<close>. Under the global scheme, a
  row whose title the \<^verbatim>\<open>URL\<close> constructor rejects is stored under that title, which is
  not an absolute URL.
\<close>

theorem save_click_array_counterexample:
  "storageKey 7 = ''blocked_7''
   \<and> local_area (save_click 7 True world1) ''blocked_7'' = Some (ArrV [''https://cdn.a/x.js''])
   \<and> \<not> (\<exists>m. local_area (save_click 7 True world1) ''blocked_7'' = Some (ObjV m))
   \<and> URL_sample ''https://exa mple.com/x.js'' (base_of host0) = None
   \<and> area_in_use
        (snd (onCheckboxChange URL_sample host0 (Some (checkbox_of ''https://exa mple.com/x.js'' True)) world0))
        STORAGE_KEY
       = Some (ObjV (Map.empty(''https://cdn.b/y.js'' \<mapsto> True, ''https://exa mple.com/x.js'' \<mapsto> True)))"
proof -
  have s: "local_area (save_click 7 True world1) (storageKey 7) = Some (ArrV [''https://cdn.a/x.js''])"
    by (simp add: save_click_def emit_def Let_def world1_def world0_def checked_titles_def)
  have n: "URL_sample ''https://exa mple.com/x.js'' (base_of host0) = None"
    by (simp add: URL_sample_def)
  have r: "''https://exa mple.com/x.js''
      = (case title_attr \<lparr>title_attr = Some ''https://exa mple.com/x.js'', src_text = None\<rparr> of
             Some x \<Rightarrow> x | None \<Rightarrow> [])"
    by simp
  have k: "''https://exa mple.com/x.js''
      = (case URL_sample ''https://exa mple.com/x.js'' (base_of host0) of Some href \<Rightarrow> href
         | None \<Rightarrow> ''https://exa mple.com/x.js'')"
    by (simp add: n)
  have a: "area_in_use
        (snd (onCheckboxChange URL_sample host0 (Some (checkbox_of ''https://exa mple.com/x.js'' True)) world0))
        STORAGE_KEY
       = Some (ObjV (Map.empty(''https://cdn.b/y.js'' \<mapsto> True, ''https://exa mple.com/x.js'' \<mapsto> True)))"
    by (simp add: onCheckboxChange_area [where URL = URL_sample and h = host0
          and t = "checkbox_of ''https://exa mple.com/x.js'' True" and raw = "''https://exa mple.com/x.js''"
          and key = "''https://exa mple.com/x.js''" and w = world0,
          OF checkbox_of_fields(1,2) host0_ok r k]
        checkbox_of_fields blocked_world0 assign_true_def)
  from s n a show ?thesis by (simp add: storageKey_7)
qed

section \<open>Properties of the keys of the blocked map\<close>

text \<open>
  C7 (as amended). When a checkbox in a row of the list changes and the storage calls
  succeed, the only key of the blocked map that changes is \<^verbatim>\<open>toAbsolute(title, base)\<close>,
  where \<open>base\<close> is the URL of the active tab (or the popup's own location when the tab
  has none): the \<^verbatim>\<open>href\<close> that the \<^verbatim>\<open>URL\<close> constructor returns for the title of the
  row, and the title itself, unresolved, when the constructor throws. The key is set
  to \<^verbatim>\<open>true\<close> when the box is checked and deleted when it is not; nothing changes when
  the key is empty or the handler throws. The reconciliation in \<^verbatim>\<open>init\<close> computes the
  key of each row in the same way and checks the row when the map has a truthy value
  at that key; so a row that was stored as blocked is found again, by equality of
  strings.
\<close>

theorem onCheckboxChange_key:
  assumes "input_type t = ''checkbox''" and "closest_li t = Some li"
    and "get_ok h" and "set_ok h"
    and "raw = (case title_attr li of Some x \<Rightarrow> x | None \<Rightarrow> [])"
    and "key = (case URL raw (base_of h) of Some href \<Rightarrow> href | None \<Rightarrow> raw)"
  shows "fst (getBlockedMap True (snd (onCheckboxChange URL h (Some t) w)))
           = (if (raw = [] \<and> src_text li \<noteq> None) \<or> key = [] then fst (getBlockedMap True w)
              else if checked t then assign_true (fst (getBlockedMap True w)) key
              else (fst (getBlockedMap True w))(key := None))
       \<and> fst (init URL h (Some inputs) w')
           = Some (map (\<lambda>inp.
                if (case URL (raw_of inp) (base_of h) of Some href \<Rightarrow> href | None \<Rightarrow> raw_of inp) \<noteq> []
                   \<and> truthy_at (fst (getBlockedMap True w'))
                        (case URL (raw_of inp) (base_of h) of Some href \<Rightarrow> href | None \<Rightarrow> raw_of inp)
                then inp\<lparr>checked := True\<rparr> else inp) inputs)
       \<and> (checked t \<and> \<not> (raw = [] \<and> src_text li \<noteq> None) \<and> key \<noteq> [] \<longrightarrow>
            fst (init URL h (Some [t\<lparr>checked := False\<rparr>]) (snd (onCheckboxChange URL h (Some t) w)))
              = Some [t\<lparr>checked := True\<rparr>])"
proof -
  note m = onCheckboxChange_map [where URL = URL and raw = raw and key = key and h = h and t = t
      and li = li and w = w, OF assms]
  have b: "fst (init URL h (Some inputs) w')
           = Some (map (\<lambda>inp.
                if (case URL (raw_of inp) (base_of h) of Some href \<Rightarrow> href | None \<Rightarrow> raw_of inp) \<noteq> []
                   \<and> truthy_at (fst (getBlockedMap True w'))
                        (case URL (raw_of inp) (base_of h) of Some href \<Rightarrow> href | None \<Rightarrow> raw_of inp)
                then inp\<lparr>checked := True\<rparr> else inp) inputs)"
    using assms(3) by (simp add: init_result reconcile_key)
  have c: "fst (init URL h (Some [t\<lparr>checked := False\<rparr>]) (snd (onCheckboxChange URL h (Some t) w)))
              = Some [t\<lparr>checked := True\<rparr>]"
    if h: "checked t" "\<not> (raw = [] \<and> src_text li \<noteq> None)" "key \<noteq> []"
  proof -
    have r: "raw_of (t\<lparr>checked := False\<rparr>) = raw"
      using assms(2,5) h(2) by (auto simp add: raw_of_def Let_def split: option.splits)
    have n: "\<not> ((raw = [] \<and> src_text li \<noteq> None) \<or> key = [])"
      using h by blast
    have s: "fst (getBlockedMap True (snd (onCheckboxChange URL h (Some t) w)))
        = assign_true (fst (getBlockedMap True w)) key"
      by (simp only: m if_not_P [OF n] if_P [OF h(1)])
    have kk: "(case URL (raw_of (t\<lparr>checked := False\<rparr>)) (base_of h) of Some href \<Rightarrow> href
        | None \<Rightarrow> raw_of (t\<lparr>checked := False\<rparr>)) = key"
      unfolding r using assms(6) by simp
    have "reconcile URL (base_of h) (assign_true (fst (getBlockedMap True w)) key) (t\<lparr>checked := False\<rparr>)
        = t\<lparr>checked := True\<rparr>"
      unfolding reconcile_key kk using h(3) by (simp add: truthy_assigned)
    then show ?thesis
      using assms(3) by (simp add: init_result s)
  qed
  from m b c show ?thesis by blast
qed

theorem onCheckboxChange_key_witness:
  "fst (getBlockedMap True
        (snd (onCheckboxChange URL_sample host0 (Some (checkbox_of ''/app.js'' True)) world0)))
      = Map.empty(''https://cdn.b/y.js'' \<mapsto> True, ''https://example.com/app.js'' \<mapsto> True)
   \<and> fst (init URL_sample host0
        (Some [checkbox_of ''https://cdn.a/x.js'' False, checkbox_of ''https://cdn.b/y.js'' False]) world0)
      = Some [checkbox_of ''https://cdn.a/x.js'' False, checkbox_of ''https://cdn.b/y.js'' True]
   \<and> fst (init URL_sample host0 (Some [checkbox_of ''/app.js'' False])
        (snd (onCheckboxChange URL_sample host0 (Some (checkbox_of ''/app.js'' True)) world0)))
      = Some [checkbox_of ''/app.js'' True]
   \<and> fst (getBlockedMap True
        (snd (onCheckboxChange URL_sample host0 (Some (checkbox_of [] True)) world0)))
      = Map.empty(''https://cdn.b/y.js'' \<mapsto> True, ''https://example.com/page'' \<mapsto> True)"
proof -
  have r: "''/app.js'' = (case title_attr \<lparr>title_attr = Some ''/app.js'', src_text = None\<rparr> of
             Some x \<Rightarrow> x | None \<Rightarrow> [])"
    by simp
  have k: "''https://example.com/app.js''
      = (case URL_sample ''/app.js'' (base_of host0) of Some href \<Rightarrow> href | None \<Rightarrow> ''/app.js'')"
    by (simp add: URL_sample_def base_host0)
  note inst = onCheckboxChange_key [where URL = URL_sample and h = host0
      and t = "checkbox_of ''/app.js'' True" and raw = "''/app.js''"
      and key = "''https://example.com/app.js''" and w = world0 and w' = world0
      and inputs = "[checkbox_of ''https://cdn.a/x.js'' False, checkbox_of ''https://cdn.b/y.js'' False]",
      OF checkbox_of_fields(1,2) host0_ok r k]
  have a: "assign_true (Map.empty(''https://cdn.b/y.js'' \<mapsto> True)) ''https://example.com/app.js''
      = Map.empty(''https://cdn.b/y.js'' \<mapsto> True, ''https://example.com/app.js'' \<mapsto> True)"
    by (simp add: assign_true_def)
  have kx: "URL_sample ''https://cdn.a/x.js'' (base_of host0) = Some ''https://cdn.a/x.js''"
    and ky: "URL_sample ''https://cdn.b/y.js'' (base_of host0) = Some ''https://cdn.b/y.js''"
    by (simp_all add: URL_sample_def)
  have tx: "\<not> truthy_at (Map.empty(''https://cdn.b/y.js'' \<mapsto> True)) ''https://cdn.a/x.js''"
    and ty: "truthy_at (Map.empty(''https://cdn.b/y.js'' \<mapsto> True)) ''https://cdn.b/y.js''"
    by (simp_all add: truthy_at_def Object_prototype_names_def)
  have r0: "[] = (case title_attr \<lparr>title_attr = Some [], src_text = None\<rparr> of
             Some x \<Rightarrow> x | None \<Rightarrow> [])"
    by simp
  have k0: "''https://example.com/page''
      = (case URL_sample [] (base_of host0) of Some href \<Rightarrow> href | None \<Rightarrow> [])"
    by (simp add: URL_sample_def base_host0)
  note inst0 = onCheckboxChange_key [where URL = URL_sample and h = host0
      and t = "checkbox_of [] True" and raw = "[]"
      and key = "''https://example.com/page''" and w = world0 and w' = world0 and inputs = "[]",
      OF checkbox_of_fields(1,2) host0_ok r0 k0, THEN conjunct1]
  have a0: "assign_true (Map.empty(''https://cdn.b/y.js'' \<mapsto> True)) ''https://example.com/page''
      = Map.empty(''https://cdn.b/y.js'' \<mapsto> True, ''https://example.com/page'' \<mapsto> True)"
    by (simp add: assign_true_def)
  have e0: "fst (getBlockedMap True
        (snd (onCheckboxChange URL_sample host0 (Some (checkbox_of [] True)) world0)))
      = Map.empty(''https://cdn.b/y.js'' \<mapsto> True, ''https://example.com/page'' \<mapsto> True)"
    using inst0 by (simp add: checkbox_of_fields blocked_world0 a0)
  from inst e0 show ?thesis
    by (simp add: checkbox_of_fields blocked_world0 a kx ky tx ty)
qed

text \<open>
  C7 as stated fails for a title on which the \<^verbatim>\<open>URL\<close> constructor throws: the
  \<^verbatim>\<open>catch\<close> branch of \<^verbatim>\<open>toAbsolute\<close> returns the raw string, and that string, which is
  no URL, becomes a key of the blocked map.
\<close>

theorem unparsed_key_counterexample:
  "URL_sample ''https://exa mple.com/x.js'' (base_of host0) = None
   \<and> fst (getBlockedMap True
        (snd (onCheckboxChange URL_sample host0 (Some (checkbox_of ''https://exa mple.com/x.js'' True)) world0)))
      = Map.empty(''https://cdn.b/y.js'' \<mapsto> True, ''https://exa mple.com/x.js'' \<mapsto> True)"
proof -
  have n: "URL_sample ''https://exa mple.com/x.js'' (base_of host0) = None"
    by (simp add: URL_sample_def)
  have r: "''https://exa mple.com/x.js''
      = (case title_attr \<lparr>title_attr = Some ''https://exa mple.com/x.js'', src_text = None\<rparr> of
             Some x \<Rightarrow> x | None \<Rightarrow> [])"
    by simp
  have k: "''https://exa mple.com/x.js''
      = (case URL_sample ''https://exa mple.com/x.js'' (base_of host0) of Some href \<Rightarrow> href
         | None \<Rightarrow> ''https://exa mple.com/x.js'')"
    by (simp add: n)
  from onCheckboxChange_map [where URL = URL_sample and h = host0
      and t = "checkbox_of ''https://exa mple.com/x.js'' True" and raw = "''https://exa mple.com/x.js''"
      and key = "''https://exa mple.com/x.js''" and w = world0,
      OF checkbox_of_fields(1,2) host0_ok r k] n
  show ?thesis
    by (simp add: checkbox_of_fields blocked_world0 assign_true_def)
qed


section \<open>Properties of the storage helpers\<close>

lemma storage_helpers_trace:
  "trace (snd (storageGet ok key w)) = trace w @ [StorageGet key]"
  "trace (storageSet ok key v w) = trace w @ [StorageSet key]"
  "trace (storageRemoveKey ok key w) = trace w @ [StorageRemove key]"
  by (simp_all add: storageGet_def storageSet_def storageRemoveKey_def emit_def Let_def
      split: option.splits)

lemma storageGet_failure_is_empty: "fst (storageGet False key w) = Map.empty"
  by (simp add: storageGet_def Let_def)

lemma restore_callback_failure_logged:
  "restore_callback False key w = emit (ConsoleError ''Storage get error:'') w"
  by (simp add: restore_callback_def)

text \<open>
  C8, at the failing input. The store holds \<^verbatim>\<open>{"https://cdn.b/y.js": true}\<close> and
  \<^verbatim>\<open>updateBlockedEntry("https://cdn.a/x.js", true)\<close> is called. When its read fails,
  \<^verbatim>\<open>storageGet\<close> resolves with the empty object, as it does for an empty store: the
  error is not reported. The caller logs nothing (the trace holds the two storage calls
  only) and does not treat the call as a no-op: it writes
  \<^verbatim>\<open>{"https://cdn.a/x.js": true}\<close>, and the entry that was stored is lost. When its write
  fails, \<^verbatim>\<open>storageSet\<close> resolves all the same: nothing is logged, and the caller is
  handed a map with the new key although the store has not changed. The callbacks of
  the third revision of the popup script do read \<^verbatim>\<open>lastError\<close>, log it and return
  (\<open>restore_callback_failure_logged\<close>).
\<close>

theorem storage_error_swallowed:
  "fst (getBlockedMap True world0) = Map.empty(''https://cdn.b/y.js'' \<mapsto> True)
   \<and> fst (storageGet False STORAGE_KEY world0) = Map.empty
   \<and> fst (updateBlockedEntry (False, True) ''https://cdn.a/x.js'' True world0)
       = Map.empty(''https://cdn.a/x.js'' \<mapsto> True)
   \<and> trace (snd (updateBlockedEntry (False, True) ''https://cdn.a/x.js'' True world0))
       = [StorageGet STORAGE_KEY, StorageSet STORAGE_KEY]
   \<and> fst (getBlockedMap True (snd (updateBlockedEntry (False, True) ''https://cdn.a/x.js'' True world0)))
       = Map.empty(''https://cdn.a/x.js'' \<mapsto> True)
   \<and> fst (updateBlockedEntry (True, False) ''https://cdn.a/x.js'' True world0)
       = Map.empty(''https://cdn.b/y.js'' \<mapsto> True, ''https://cdn.a/x.js'' \<mapsto> True)
   \<and> trace (snd (updateBlockedEntry (True, False) ''https://cdn.a/x.js'' True world0))
       = [StorageGet STORAGE_KEY, StorageSet STORAGE_KEY]
   \<and> fst (getBlockedMap True (snd (updateBlockedEntry (True, False) ''https://cdn.a/x.js'' True world0)))
       = Map.empty(''https://cdn.b/y.js'' \<mapsto> True)"
proof -
  have g: "fst (getBlockedMap False world0) = Map.empty"
    by (simp add: getBlockedMap_def split_beta storageGet_failure_is_empty)
  have m: "fst (updateBlockedEntry (False, True) ''https://cdn.a/x.js'' True world0)
       = Map.empty(''https://cdn.a/x.js'' \<mapsto> True)"
    by (simp add: updateBlockedEntry_def split_beta Let_def g assign_true_def)
  have t: "trace (snd (updateBlockedEntry (ok_get, ok_set) ''https://cdn.a/x.js'' True world0))
       = [StorageGet STORAGE_KEY, StorageSet STORAGE_KEY]" for ok_get ok_set
    by (simp add: updateBlockedEntry_def getBlockedMap_def setBlockedMap_def split_beta Let_def
        storage_helpers_trace world0_def)
  have s: "area_in_use (snd (updateBlockedEntry (False, True) ''https://cdn.a/x.js'' True world0)) STORAGE_KEY
       = Some (ObjV (Map.empty(''https://cdn.a/x.js'' \<mapsto> True)))"
    by (simp add: stored_after_update g assign_true_def)
  have m2: "fst (updateBlockedEntry (True, False) ''https://cdn.a/x.js'' True world0)
       = Map.empty(''https://cdn.b/y.js'' \<mapsto> True, ''https://cdn.a/x.js'' \<mapsto> True)"
    by (simp add: updateBlockedEntry_def split_beta Let_def blocked_world0 assign_true_def)
  have s2: "area_in_use (snd (updateBlockedEntry (True, False) ''https://cdn.a/x.js'' True world0))
       = area_in_use world0"
    by (simp add: updateBlockedEntry_def getBlockedMap_def setBlockedMap_def storageGet_def
        storageSet_def split_beta Let_def area_emit)
  have r2: "fst (getBlockedMap True (snd (updateBlockedEntry (True, False) ''https://cdn.a/x.js'' True world0)))
       = Map.empty(''https://cdn.b/y.js'' \<mapsto> True)"
    using blocked_world0 by (simp add: getBlockedMap_area s2)
  from blocked_world0 storageGet_failure_is_empty [of STORAGE_KEY world0] m t s m2 r2
  show ?thesis by (simp add: getBlockedMap_area)
qed

section \<open>Properties of the initialisation\<close>

lemma trace_emit: "trace (emit a w) = trace w @ [a]"
  by (simp add: emit_def)

lemma getBlockedMap_trace: "trace (snd (getBlockedMap ok w)) = trace w @ [StorageGet STORAGE_KEY]"
  by (simp add: getBlockedMap_def split_beta storage_helpers_trace)

text \<open>
  C9 (as amended). \<^verbatim>\<open>init\<close> does nothing without a list. With a list it attaches the
  delegated \<^verbatim>\<open>change\<close> listener first; the read of the blocked map, the tab query
  (when there are checkboxes) and the reconciliation of the checkboxes against the map
  follow the attachment, in this order.
\<close>

theorem init_order:
  "init URL h None w = (None, w)
   \<and> trace (snd (init URL h (Some inputs) w))
       = trace w @ [AddListener ''script-list'' ''change'', StorageGet STORAGE_KEY]
           @ (if inputs = [] then [] else [TabsQuery])
   \<and> fst (init URL h (Some inputs) w)
       = Some (map (reconcile URL (base_of h) (fst (getBlockedMap (get_ok h) w))) inputs)"
  by (simp add: init_def split_beta Let_def getBlockedMap_emit getBlockedMap_trace trace_emit)

text \<open>
  C9 as stated fails: with one unchecked row whose URL is blocked, the first action of
  \<^verbatim>\<open>init\<close> is the attachment of the listener; the storage read, the tab query and the
  reconciliation that checks the row come after it.
\<close>

theorem init_order_counterexample:
  "trace (snd (init URL_sample host0 (Some [checkbox_of ''https://cdn.b/y.js'' False]) world0))
     = [AddListener ''script-list'' ''change'', StorageGet ''blocked_scripts'', TabsQuery]
   \<and> fst (init URL_sample host0 (Some [checkbox_of ''https://cdn.b/y.js'' False]) world0)
     = Some [checkbox_of ''https://cdn.b/y.js'' True]"
proof -
  have k: "toAbsolute URL_sample ''https://cdn.b/y.js'' (base_of host0) = ''https://cdn.b/y.js''"
    by (simp add: toAbsolute_def URL_sample_def)
  have g: "get_ok host0" by (simp add: host0_def)
  have r: "reconcile URL_sample (base_of host0) (Map.empty(''https://cdn.b/y.js'' \<mapsto> True))
             (checkbox_of ''https://cdn.b/y.js'' False) = checkbox_of ''https://cdn.b/y.js'' True"
    by (simp add: reconcile_def raw_of_def checkbox_of_def k Let_def truthy_at_def)
  have t: "trace world0 = []" by (simp add: world0_def)
  show ?thesis
    by (simp add: init_def split_beta Let_def getBlockedMap_emit getBlockedMap_trace trace_emit
        g r t blocked_world0 STORAGE_KEY_def)
qed

section \<open>Properties of the list renderer\<close>

lemma set_list_present:
  "script_list w = Some old \<Longrightarrow> set_list items w = (None, w\<lparr>script_list := Some items\<rparr>)"
  by (simp add: set_list_def)

lemma script_list_emit: "script_list (emit a w) = script_list w"
  by (simp add: emit_def)

lemma popup_v2_rows:
  assumes "script_list w = Some old" and "refresh_btn w" and "\<not> falsy_id (tab_id t)"
  shows "script_list (popup_v2 (Some t) (Fulfilled r) w)
         = Some (if scripts_of_results r = [] then [LiText NO_SCRIPTS]
                 else map (\<lambda>u. LiMarkup (row_html (replicate 16 CHR '' '') (replicate 12 CHR '' '') u))
                        (scripts_of_results r))"
  using assms
  by (simp add: popup_v2_def popup_v2_try_def Let_def set_list_def emit_def)

lemma restore_callback_length:
  "row_count (restore_callback ok key w) = row_count w"
  by (simp add: restore_callback_def emit_def row_count_def split: option.splits stored.splits)

lemma popup_v3_empty:
  assumes "script_list w = Some old" and "\<not> falsy_id (tab_id t)" and "scripts_of_results r = []"
  shows "script_list (popup_v3 (Some t) (Fulfilled r) ok w) = Some [LiText NO_SCRIPTS]"
  using assms
  by (auto simp add: popup_v3_def popup_v3_try_def Let_def set_list_def emit_def falsy_id_def
      split: option.splits)

lemma popup_v3_rows:
  assumes "script_list w = Some old" and "save_btn w" and "\<not> falsy_id (tab_id t)"
    and "scripts_of_results r \<noteq> []"
  shows "row_count (popup_v3 (Some t) (Fulfilled r) ok w) = length (scripts_of_results r)"
proof -
  from assms(3) obtain i where i: "tab_id t = Some i" "i \<noteq> 0"
    by (auto simp add: falsy_id_def split: option.splits)
  let ?w5 = "emit (AddListener ''save-btn'' ''click'')
      (emit (StorageGet (storageKey i))
        ((emit (ExecuteScript (Some i)) (emit TabsQuery w))
           \<lparr>script_list := Some (map row_v3 (scripts_of_results r))\<rparr>))"
  have "popup_v3 (Some t) (Fulfilled r) ok w = restore_callback ok (storageKey i) ?w5"
    using assms(1,2,4) i
    by (simp add: popup_v3_def popup_v3_try_def Let_def set_list_def emit_def falsy_id_def)
  then have "row_count (popup_v3 (Some t) (Fulfilled r) ok w) = row_count ?w5"
    by (simp add: restore_callback_length)
  then show ?thesis
    by (simp add: row_count_def emit_def)
qed

lemma NO_texts: "NO_SCRIPTS \<noteq> NO_TAB"
  by (simp add: NO_SCRIPTS_def NO_TAB_def)

lemma falsy_7: "\<not> falsy_id (tab_id tab7)"
  by (simp add: falsy_id_def tab7_def)

text \<open>
  C5 (as amended). When the tab id is not falsy, the injection is fulfilled and the
  popup has its list and its buttons, the second and the third revision render one row
  per entry of the probe's list, duplicates included; so \<open>N\<close> rows when the list is not
  empty and its \<open>N\<close> entries are pairwise distinct. For the empty list they render one
  row, the text \<^verbatim>\<open>No external JS files found.\<close>, which has no checkbox.
\<close>

theorem rows_per_entry:
  assumes "script_list w = Some old" and "refresh_btn w" and "save_btn w"
    and "\<not> falsy_id (tab_id t)"
  shows "(scripts_of_results r = [] \<longrightarrow>
            script_list (popup_v2 (Some t) (Fulfilled r) w) = Some [LiText NO_SCRIPTS]
          \<and> script_list (popup_v3 (Some t) (Fulfilled r) ok w) = Some [LiText NO_SCRIPTS])
       \<and> (scripts_of_results r \<noteq> [] \<longrightarrow>
            row_count (popup_v2 (Some t) (Fulfilled r) w)
              = length (scripts_of_results r)
          \<and> row_count (popup_v3 (Some t) (Fulfilled r) ok w)
              = length (scripts_of_results r))
       \<and> (scripts_of_results r \<noteq> [] \<and> distinct (scripts_of_results r) \<longrightarrow>
            row_count (popup_v2 (Some t) (Fulfilled r) w) = card (set (scripts_of_results r))
          \<and> row_count (popup_v3 (Some t) (Fulfilled r) ok w) = card (set (scripts_of_results r)))"
  using popup_v2_rows [OF assms(1,2,4), of r] popup_v3_rows [OF assms(1,3,4), of r ok]
    popup_v3_empty [OF assms(1,4), of r ok]
  by (simp add: distinct_card row_count_def)

theorem rows_per_entry_witness:
  "row_count (popup_v2 (Some tab7)
        (Fulfilled (Some [Some [''https://cdn.a/x.js'', ''https://cdn.b/y.js'']])) world0) = 2
   \<and> row_count (popup_v3 (Some tab7)
        (Fulfilled (Some [Some [''https://cdn.a/x.js'', ''https://cdn.b/y.js'']])) True world0) = 2
   \<and> card (set [''https://cdn.a/x.js'', ''https://cdn.b/y.js'']) = 2
   \<and> script_list (popup_v3 (Some tab7) (Fulfilled (Some [Some []])) True world0)
       = Some [LiText NO_SCRIPTS]"
proof -
  have a: "script_list world0 = Some []" and b: "refresh_btn world0" and c: "save_btn world0"
    by (simp_all add: world0_def)
  have s2: "scripts_of_results (Some [Some [''https://cdn.a/x.js'', ''https://cdn.b/y.js'']])
       = [''https://cdn.a/x.js'', ''https://cdn.b/y.js'']"
    by (simp add: scripts_of_results_def)
  have s0: "scripts_of_results (Some [Some []]) = []"
    by (simp add: scripts_of_results_def)
  from rows_per_entry [OF a b c falsy_7, of "Some [Some [''https://cdn.a/x.js'', ''https://cdn.b/y.js'']]" True]
    rows_per_entry [OF a b c falsy_7, of "Some [Some []]" True] s2 s0
  show ?thesis by (simp add: row_count_def)
qed

text \<open>
  C5 as stated fails for a page that loads one script twice: the probe's list holds one
  distinct URL and both revisions render two rows.
\<close>

theorem duplicate_rows_counterexample:
  "row_count (popup_v3 (Some tab7)
        (Fulfilled (Some [Some [''https://cdn.a/x.js'', ''https://cdn.a/x.js'']])) True world0) = 2
   \<and> row_count (popup_v2 (Some tab7)
        (Fulfilled (Some [Some [''https://cdn.a/x.js'', ''https://cdn.a/x.js'']])) world0) = 2
   \<and> card (set [''https://cdn.a/x.js'', ''https://cdn.a/x.js'']) = 1"
proof -
  have a: "script_list world0 = Some []" and b: "refresh_btn world0" and c: "save_btn world0"
    by (simp_all add: world0_def)
  have s2: "scripts_of_results (Some [Some [''https://cdn.a/x.js'', ''https://cdn.a/x.js'']])
       = [''https://cdn.a/x.js'', ''https://cdn.a/x.js'']"
    by (simp add: scripts_of_results_def)
  from popup_v2_rows [OF a b falsy_7, of "Some [Some [''https://cdn.a/x.js'', ''https://cdn.a/x.js'']]"]
    popup_v3_rows [OF a c falsy_7, of "Some [Some [''https://cdn.a/x.js'', ''https://cdn.a/x.js'']]" True]
    s2
  show ?thesis by (simp add: row_count_def)
qed


section \<open>The guard on the active tab\<close>

lemma popup_v2_guard:
  assumes "script_list w = Some old" and "case tb of None \<Rightarrow> True | Some t \<Rightarrow> falsy_id (tab_id t)"
  shows "script_list (popup_v2 tb exec w) = Some [LiText NO_TAB]"
    and "trace (popup_v2 tb exec w) = trace w @ [TabsQuery]"
  using assms
  by (simp_all add: popup_v2_def popup_v2_try_def Let_def set_list_def emit_def)

lemma popup_v3_guard:
  assumes "script_list w = Some old" and "case tb of None \<Rightarrow> True | Some t \<Rightarrow> falsy_id (tab_id t)"
  shows "script_list (popup_v3 tb exec ok w) = Some [LiText NO_TAB]"
    and "trace (popup_v3 tb exec ok w) = trace w @ [TabsQuery]"
  using assms
  by (auto simp add: popup_v3_def popup_v3_try_def Let_def set_list_def emit_def
      split: option.splits)

lemma render_v1_list:
  "script_list w = Some old \<Longrightarrow>
   script_list (render_v1 r w)
   = Some (if scripts_of_results r = [] then [LiText NO_SCRIPTS]
           else map (\<lambda>u. LiMarkup (row_html (replicate 20 CHR '' '') (replicate 16 CHR '' '') u))
                  (scripts_of_results r))"
  by (simp add: render_v1_def set_list_def Let_def)

lemma render_v1_trace: "script_list w = Some old \<Longrightarrow> trace (render_v1 r w) = trace w"
  by (simp add: render_v1_def set_list_def Let_def)

text \<open>
  C4, at the failing input. The first revision has no guard: for a tab whose id is
  undefined it calls \<^verbatim>\<open>executeScript\<close> with that id, whatever the outcome of the call,
  and the list never shows \<^verbatim>\<open>No active tab found.\<close>; without a tab it ends with an
  uncaught TypeError and the list is left as it was. The second and the third revision
  show the message and inject nothing (\<open>popup_v2_guard\<close>, \<open>popup_v3_guard\<close>).
\<close>

theorem popup_v1_no_guard:
  "ExecuteScript None \<in> set (trace (popup_v1 (Some \<lparr>tab_id = None, tab_url = None\<rparr>) exec world0))
   \<and> script_list (popup_v1 (Some \<lparr>tab_id = None, tab_url = None\<rparr>) exec world0) \<noteq> Some [LiText NO_TAB]
   \<and> script_list (popup_v1 None exec world0) = Some []
   \<and> trace (popup_v1 None exec world0) = [TabsQuery, Uncaught ''TypeError: tab is undefined'']"
proof -
  have l: "script_list world0 = Some []" and b: "refresh_btn world0" and t: "trace world0 = []"
    by (simp_all add: world0_def)
  have n: "script_list (popup_v1 None exec world0) = Some []"
    "trace (popup_v1 None exec world0) = [TabsQuery, Uncaught ''TypeError: tab is undefined'']"
    by (simp_all add: popup_v1_def Let_def emit_def l t)
  let ?w = "emit (AddListener ''refresh-btn'' ''click'')
              (emit (ExecuteScript None) (emit TabsQuery world0))"
  have lw: "script_list ?w = Some []" by (simp add: emit_def l)
  have tw: "trace ?w = [TabsQuery, ExecuteScript None, AddListener ''refresh-btn'' ''click'']"
    by (simp add: emit_def t)
  have rb: "refresh_btn (emit (ExecuteScript None) (emit TabsQuery world0))"
    by (simp add: emit_def b)
  have "ExecuteScript None \<in> set (trace (popup_v1 (Some \<lparr>tab_id = None, tab_url = None\<rparr>) exec world0))
      \<and> script_list (popup_v1 (Some \<lparr>tab_id = None, tab_url = None\<rparr>) exec world0) \<noteq> Some [LiText NO_TAB]"
  proof (cases exec)
    case (Threw msg)
    then show ?thesis
      by (simp add: popup_v1_def Let_def emit_def l t)
  next
    case (Rejected msg)
    then have "popup_v1 (Some \<lparr>tab_id = None, tab_url = None\<rparr>) exec world0 = render_v1 None ?w"
      by (simp add: popup_v1_def Let_def rb)
    then show ?thesis
      using render_v1_list [OF lw, of None] render_v1_trace [OF lw, of None] tw NO_texts
      by (simp add: scripts_of_results_def)
  next
    case (Fulfilled r)
    then have "popup_v1 (Some \<lparr>tab_id = None, tab_url = None\<rparr>) exec world0 = render_v1 r ?w"
      by (simp add: popup_v1_def Let_def rb)
    then show ?thesis
      using render_v1_list [OF lw, of r] render_v1_trace [OF lw, of r] tw NO_texts
      by (cases "scripts_of_results r") auto
  qed
  with n show ?thesis by simp
qed

section \<open>URLs in the rendered rows\<close>

lemma last_segment_markup: "last_segment URL_markup = ''b>''"
  by (simp add: last_segment_def URL_markup_def)

lemma row_v3_plain: "\<exists>title label. row_v3 u = LiEntry title label False"
  by (simp add: row_v3_def)

text \<open>
  C3, at the failing input. A page carries a script whose \<^verbatim>\<open>src\<close> is the data URL
  \<^verbatim>\<open>data:text/javascript,1//"><b>x</b>\<close>. The first and the second revision assign
  a string to \<^verbatim>\<open>li.innerHTML\<close> in which the URL stands unescaped: its quote ends the
  \<^verbatim>\<open>title\<close> attribute and the rest is parsed as markup. The third revision assigns
  the same URL to \<^verbatim>\<open>span.title\<close> and its last segment to \<^verbatim>\<open>span.textContent\<close>.
\<close>

theorem innerHTML_rows:
  \<open>script_list (popup_v2 (Some tab7) (Fulfilled (Some [Some [URL_markup]])) world0)
     = Some [LiMarkup (CHR 0x0A # replicate 16 CHR '' ''
          @ ''<span title="data:text/javascript,1//"><b>x</b>">b></span>''
          @ CHR 0x0A # replicate 16 CHR '' '' @ ''<input type="checkbox" />''
          @ CHR 0x0A # replicate 12 CHR '' '')]
   \<and> script_list (popup_v1 (Some tab7) (Fulfilled (Some [Some [URL_markup]])) world0)
     = Some [LiMarkup (CHR 0x0A # replicate 20 CHR '' ''
          @ ''<span title="data:text/javascript,1//"><b>x</b>">b></span>''
          @ CHR 0x0A # replicate 20 CHR '' '' @ ''<input type="checkbox" />''
          @ CHR 0x0A # replicate 16 CHR '' '')]
   \<and> script_list (popup_v3 (Some tab7) (Fulfilled (Some [Some [URL_markup]])) True world0)
     = Some [LiEntry URL_markup ''b>'' False]\<close>
proof -
  have l: "script_list world0 = Some []" and b: "refresh_btn world0" and c: "save_btn world0"
    and la: "local_area world0 = Map.empty"
    by (simp_all add: world0_def)
  have s: "scripts_of_results (Some [Some [URL_markup]]) = [URL_markup]"
    by (simp add: scripts_of_results_def)
  have h: \<open>row_html pad pad_end URL_markup
      = CHR 0x0A # pad @ ''<span title="data:text/javascript,1//"><b>x</b>">b></span>''
          @ CHR 0x0A # pad @ ''<input type="checkbox" />'' @ CHR 0x0A # pad_end\<close> for pad pad_end
    by (simp add: row_html_def last_segment_markup) (simp add: URL_markup_def)
  have v2: "script_list (popup_v2 (Some tab7) (Fulfilled (Some [Some [URL_markup]])) world0)
      = Some [LiMarkup (row_html (replicate 16 CHR '' '') (replicate 12 CHR '' '') URL_markup)]"
    using popup_v2_rows [OF l b falsy_7, of "Some [Some [URL_markup]]"] s by simp
  have rb: "refresh_btn (emit (ExecuteScript (Some 7)) (emit TabsQuery world0))"
    by (simp add: emit_def b)
  have lw: "script_list (emit (AddListener ''refresh-btn'' ''click'')
              (emit (ExecuteScript (Some 7)) (emit TabsQuery world0))) = Some []"
    by (simp add: emit_def l)
  have "popup_v1 (Some tab7) (Fulfilled (Some [Some [URL_markup]])) world0
      = render_v1 (Some [Some [URL_markup]]) (emit (AddListener ''refresh-btn'' ''click'')
              (emit (ExecuteScript (Some 7)) (emit TabsQuery world0)))"
    by (simp add: popup_v1_def Let_def rb tab7_def)
  then have v1: "script_list (popup_v1 (Some tab7) (Fulfilled (Some [Some [URL_markup]])) world0)
      = Some [LiMarkup (row_html (replicate 20 CHR '' '') (replicate 16 CHR '' '') URL_markup)]"
    using render_v1_list [OF lw, of "Some [Some [URL_markup]]"] s by simp
  have v3: "script_list (popup_v3 (Some tab7) (Fulfilled (Some [Some [URL_markup]])) True world0)
      = Some [LiEntry URL_markup ''b>'' False]"
    by (simp add: popup_v3_def popup_v3_try_def Let_def set_list_def emit_def falsy_id_def tab7_def
        s l c la restore_callback_def restore_row_def row_v3_def last_segment_markup)
  from v1 v2 v3 show ?thesis by (simp add: h)
qed

end
